theory Spec2Isabelle
  imports Complex_Main "HOL-Library.Char_ord" "HOL-Library.List_Lexorder"
begin

section \<open>The weather-audio training pipeline\<close>

text \<open>
  A shallow embedding of the notebook \<^verbatim>\<open>optimized_weather_training_pipeline.ipynb\<close>:
  the functions \<^verbatim>\<open>load_and_pad_audio\<close>, \<^verbatim>\<open>load_audio_files\<close> and
  \<^verbatim>\<open>prepare_spectrograms\<close>, and the script cells that encode labels, pad the
  spectrograms, split the data and train. Calls into the operating system and into
  numerical libraries are explicit: the file system and the audio decoder are fields of an
  environment record, and a raised exception is a value (\<open>None\<close>, or \<open>Inl\<close> of an error).
\<close>

subsection \<open>Errors and the environment\<close>

datatype py_error = OSError | ValueError | AxisError | InvalidArgumentError

text \<open>
  What the notebook reads from outside: \<^verbatim>\<open>os.listdir\<close> (\<open>None\<close> when it raises),
  \<^verbatim>\<open>os.path.isdir\<close>, \<^verbatim>\<open>os.path.join\<close> and \<^verbatim>\<open>librosa.load(path, sr=sr)\<close>, which
  gives the decoded, resampled, one-dimensional waveform, or raises (\<open>None\<close>).
\<close>

record 'a os_env =
  os_listdir :: "string \<Rightarrow> string list option"
  os_path_isdir :: "string \<Rightarrow> bool"
  os_path_join :: "string \<Rightarrow> string \<Rightarrow> string"
  librosa_load :: "string \<Rightarrow> int \<Rightarrow> 'a list option"

text \<open>The entries of the configuration dictionary \<^verbatim>\<open>SC\<close> that the loader reads.\<close>

definition AUDIO_CLIP_DURATION :: int where
  "AUDIO_CLIP_DURATION = 2"

definition AUDIO_SAMPLE_RATE :: int where
  "AUDIO_SAMPLE_RATE = 16000"

subsection \<open>\<^verbatim>\<open>load_and_pad_audio\<close>\<close>

text \<open>
  \<^verbatim>\<open>np.pad(audio, (before, after), "constant")\<close> on a one-dimensional array: zeros on
  both ends; a negative width raises (\<open>None\<close>).
\<close>

definition np_pad :: "'a::zero list \<Rightarrow> int \<Rightarrow> int \<Rightarrow> 'a list option" where
  "np_pad audio before after =
     (if before < 0 \<or> after < 0 then None
      else Some (replicate (nat before) 0 @ audio @ replicate (nat after) 0))"

text \<open>
  Python's slice \<^verbatim>\<open>xs[lo:hi]\<close>: a negative bound counts from the end, and both bounds
  are clipped to the length.
\<close>

definition slice_bound :: "nat \<Rightarrow> int \<Rightarrow> nat" where
  "slice_bound n i = (if i < 0 then nat (max 0 (int n + i)) else min n (nat i))"

definition py_slice :: "'a list \<Rightarrow> int \<Rightarrow> int \<Rightarrow> 'a list" where
  "py_slice xs lo hi =
     (let l = slice_bound (length xs) lo; h = slice_bound (length xs) hi
      in take (h - l) (drop l xs))"

text \<open>
  The body of the \<^verbatim>\<open>try\<close> block after the load: pad a short waveform on both ends,
  cut a long one from its middle, leave one of the required length alone.
\<close>

definition pad_or_trim :: "'a::zero list \<Rightarrow> int \<Rightarrow> int \<Rightarrow> 'a list option" where
  "pad_or_trim audio duration sr =
     (let required_samples = sr * duration;
          audio_length = int (length audio)
      in if audio_length < required_samples then
           (let pad_length = (required_samples - audio_length) div 2
            in np_pad audio pad_length (required_samples - audio_length - pad_length))
         else if audio_length > required_samples then
           (let start = (audio_length - required_samples) div 2
            in Some (py_slice audio start (start + required_samples)))
         else Some audio)"

text \<open>
  The whole function: any exception of the load or of the padding is caught and the
  function returns \<^verbatim>\<open>(None, None)\<close>, here \<open>None\<close>.
\<close>

definition load_and_pad_audio ::
  "('a::zero) os_env \<Rightarrow> string \<Rightarrow> int \<Rightarrow> int \<Rightarrow> ('a list \<times> int) option" where
  "load_and_pad_audio env file_path duration sr =
     (case librosa_load env file_path sr of
        None \<Rightarrow> None
      | Some audio \<Rightarrow>
          (case pad_or_trim audio duration sr of
             None \<Rightarrow> None
           | Some padded \<Rightarrow> Some (padded, sr)))"

subsection \<open>\<^verbatim>\<open>load_audio_files\<close>\<close>

text \<open>
  The inner loop over the files of one class directory. \<open>log_mel audio sr\<close> stands for
  \<^verbatim>\<open>librosa.power_to_db(librosa.feature.melspectrogram(y=audio, sr=sr, ...), top_db=...)\<close>,
  a floating-point transform whose values play no part here. The pair is the two lists
  \<^verbatim>\<open>audios\<close> and \<^verbatim>\<open>labels\<close> that the loop appends to.
\<close>

fun load_files ::
  "('a::zero) os_env \<Rightarrow> ('a list \<Rightarrow> int \<Rightarrow> 'm) \<Rightarrow> string \<Rightarrow> string \<Rightarrow> string list \<Rightarrow>
   'm list \<times> string list \<Rightarrow> 'm list \<times> string list" where
  "load_files env log_mel class_path label [] acc = acc"
| "load_files env log_mel class_path label (file # files) (audios, labels) =
     (let file_path = os_path_join env class_path file
      in case load_and_pad_audio env file_path AUDIO_CLIP_DURATION AUDIO_SAMPLE_RATE of
           None \<Rightarrow> load_files env log_mel class_path label files (audios, labels)
         | Some (audio, sr) \<Rightarrow>
             load_files env log_mel class_path label files
               (audios @ [log_mel audio sr], labels @ [label]))"

text \<open>The outer loop over the class labels; listing a class directory may raise.\<close>

fun load_classes ::
  "('a::zero) os_env \<Rightarrow> ('a list \<Rightarrow> int \<Rightarrow> 'm) \<Rightarrow> string \<Rightarrow> string list \<Rightarrow>
   'm list \<times> string list \<Rightarrow> py_error + 'm list \<times> string list" where
  "load_classes env log_mel path [] acc = Inr acc"
| "load_classes env log_mel path (label # rest) acc =
     (let class_path = os_path_join env path label
      in case os_listdir env class_path of
           None \<Rightarrow> Inl OSError
         | Some files \<Rightarrow>
             load_classes env log_mel path rest
               (load_files env log_mel class_path label files acc))"

definition load_audio_files ::
  "('a::zero) os_env \<Rightarrow> ('a list \<Rightarrow> int \<Rightarrow> 'm) \<Rightarrow> string \<Rightarrow>
   py_error + 'm list \<times> string list \<times> string list" where
  "load_audio_files env log_mel path =
     (case os_listdir env path of
        None \<Rightarrow> Inl OSError
      | Some ds \<Rightarrow>
          (let class_labels = filter (\<lambda>d. os_path_isdir env (os_path_join env path d)) ds
           in case load_classes env log_mel path class_labels ([], []) of
                Inl e \<Rightarrow> Inl e
              | Inr (audios, labels) \<Rightarrow> Inr (audios, labels, class_labels)))"

subsection \<open>A small corpus to run the loader on\<close>

text \<open>
  Five roots. \<^verbatim>\<open>data\<close> holds the classes \<^verbatim>\<open>thunder\<close> and \<^verbatim>\<open>rain\<close>, listed in
  that order, and a plain file; one of the three audio files cannot be decoded.
  \<^verbatim>\<open>sparse\<close> holds the classes \<^verbatim>\<open>rain\<close> and \<^verbatim>\<open>thunder\<close>, the second without
  files. \<^verbatim>\<open>empty\<close> has no entries at all, and \<^verbatim>\<open>flat\<close> only a plain file.
  \<^verbatim>\<open>tidy\<close> holds the classes \<^verbatim>\<open>hail\<close> and \<^verbatim>\<open>wind\<close>, one file each.
\<close>

definition demo_listdir :: "string \<Rightarrow> string list option" where
  "demo_listdir p =
     (if p = ''data'' then Some [''thunder'', ''rain'', ''notes.txt'']
      else if p = ''data/thunder'' then Some [''t1.wav'']
      else if p = ''data/rain'' then Some [''r1.wav'', ''broken.wav'']
      else if p = ''sparse'' then Some [''rain'', ''thunder'']
      else if p = ''sparse/rain'' then Some [''r1.wav'']
      else if p = ''sparse/thunder'' then Some []
      else if p = ''empty'' then Some []
      else if p = ''flat'' then Some [''notes.txt'']
      else if p = ''tidy'' then Some [''hail'', ''wind'']
      else if p = ''tidy/hail'' then Some [''h1.wav'']
      else if p = ''tidy/wind'' then Some [''w1.wav'']
      else None)"

definition demo_load :: "string \<Rightarrow> int \<Rightarrow> real list option" where
  "demo_load p sr =
     (if p = ''data/thunder/t1.wav'' then Some [1, 2, 3]
      else if p = ''data/rain/r1.wav'' then Some [4, 5]
      else if p = ''sparse/rain/r1.wav'' then Some [6]
      else if p = ''tidy/hail/h1.wav'' then Some [7]
      else if p = ''tidy/wind/w1.wav'' then Some [8, 9]
      else None)"

definition demo_env :: "real os_env" where
  "demo_env =
     \<lparr> os_listdir = demo_listdir,
       os_path_isdir = (\<lambda>p. p \<in> {''data/thunder'', ''data/rain'', ''sparse/rain'', ''sparse/thunder'',
                               ''tidy/hail'', ''tidy/wind''}),
       os_path_join = (\<lambda>a b. a @ ''/'' @ b),
       librosa_load = demo_load \<rparr>"

subsection \<open>The files a run visits\<close>

text \<open>
  Names for what \<^verbatim>\<open>load_audio_files\<close> enumerates: the class labels (the list
  comprehension of its second line), the paths of the files of one class directory, all
  of them in the order of the two loops, whether a file decodes at the configured sample
  rate, and the sample a file contributes.
\<close>

definition class_dirs :: "'a os_env \<Rightarrow> string \<Rightarrow> string list" where
  "class_dirs env path =
     (case os_listdir env path of
        None \<Rightarrow> []
      | Some ds \<Rightarrow> filter (\<lambda>d. os_path_isdir env (os_path_join env path d)) ds)"

definition class_files :: "'a os_env \<Rightarrow> string \<Rightarrow> string \<Rightarrow> string list" where
  "class_files env path label =
     (case os_listdir env (os_path_join env path label) of
        None \<Rightarrow> []
      | Some files \<Rightarrow> map (os_path_join env (os_path_join env path label)) files)"

definition corpus_files :: "'a os_env \<Rightarrow> string \<Rightarrow> string list" where
  "corpus_files env path = concat (map (class_files env path) (class_dirs env path))"

definition decodes :: "'a os_env \<Rightarrow> string \<Rightarrow> bool" where
  "decodes env file_path \<longleftrightarrow> librosa_load env file_path AUDIO_SAMPLE_RATE \<noteq> None"

definition sample_of :: "('a::zero) os_env \<Rightarrow> ('a list \<Rightarrow> int \<Rightarrow> 'm) \<Rightarrow> string \<Rightarrow> 'm option" where
  "sample_of env log_mel file_path =
     map_option (\<lambda>(audio, sr). log_mel audio sr)
       (load_and_pad_audio env file_path AUDIO_CLIP_DURATION AUDIO_SAMPLE_RATE)"

text \<open>A stand-in feature extractor for running the loader: a matrix of one row.\<close>

definition demo_log_mel :: "real list \<Rightarrow> int \<Rightarrow> real list list" where
  "demo_log_mel audio sr = [audio]"

subsection \<open>Label encoding\<close>

text \<open>
  The cell that encodes the labels calls two library functions.
  \<^verbatim>\<open>LabelEncoder().fit_transform(labels)\<close> of scikit-learn takes as its classes the
  distinct labels in ascending order (\<^verbatim>\<open>numpy.unique\<close>; strings compare by code point)
  and replaces each label by its position among them.
  \<^verbatim>\<open>to_categorical(y)\<close> of Keras, called without \<^verbatim>\<open>num_classes\<close>, makes one row per
  entry of \<open>y\<close>, of width \<^verbatim>\<open>max(y) + 1\<close>, all zeros but a one at the entry's index; the
  maximum of an empty array raises.
\<close>

definition np_unique :: "'a::linorder list \<Rightarrow> 'a list" where
  "np_unique xs = sort (remdups xs)"

fun index_of :: "'a list \<Rightarrow> 'a \<Rightarrow> nat" where
  "index_of [] y = 0"
| "index_of (x # xs) y = (if x = y then 0 else Suc (index_of xs y))"

definition fit_transform :: "'a::linorder list \<Rightarrow> nat list" where
  "fit_transform y = (let classes = np_unique y in map (index_of classes) y)"

definition to_categorical :: "nat list \<Rightarrow> py_error + real list list" where
  "to_categorical y =
     (if y = [] then Inl ValueError
      else (let num_classes = Max (set y) + 1
            in Inr (map (\<lambda>k. (replicate num_classes 0)[k := 1]) y)))"

text \<open>The two lines of the script that produce \<^verbatim>\<open>labels_categorical\<close>.\<close>

definition labels_categorical :: "string list \<Rightarrow> py_error + real list list" where
  "labels_categorical labels =
     (let labels_encoded = fit_transform labels in to_categorical labels_encoded)"

text \<open>
  The width of the classifier's output: \<^verbatim>\<open>build_model(input_shape,
  num_classes=len(class_labels))\<close> ends in \<^verbatim>\<open>Dense(num_classes, activation='softmax')\<close>.
\<close>

definition build_model_num_classes :: "string list \<Rightarrow> nat" where
  "build_model_num_classes class_labels = length class_labels"

subsection \<open>Padding and preparing the spectrograms\<close>

text \<open>
  A spectrogram is a two-dimensional array, here the list of its rows;
  \<^verbatim>\<open>audio.shape[0]\<close> and \<^verbatim>\<open>audio.shape[1]\<close> are its numbers of rows and of columns.
\<close>

definition shape0 :: "'a list list \<Rightarrow> nat" where
  "shape0 m = length m"

definition shape1 :: "'a list list \<Rightarrow> nat" where
  "shape1 m = (case m of [] \<Rightarrow> 0 | row # _ \<Rightarrow> length row)"

text \<open>Python's \<^verbatim>\<open>max\<close> over a generator raises on an empty one.\<close>

definition py_max :: "nat list \<Rightarrow> py_error + nat" where
  "py_max xs = (if xs = [] then Inl ValueError else Inr (Max (set xs)))"

text \<open>
  \<^verbatim>\<open>np.pad(audio, ((0, below), (0, right)), 'constant')\<close>: zeros to the right of every row
  and rows of zeros below.
\<close>

definition np_pad2 :: "'a::zero list list \<Rightarrow> nat \<Rightarrow> nat \<Rightarrow> 'a list list" where
  "np_pad2 audio below right =
     map (\<lambda>row. row @ replicate right 0) audio
     @ replicate below (replicate (shape1 audio + right) 0)"

definition audios_padded :: "'a::zero list list list \<Rightarrow> py_error + 'a list list list" where
  "audios_padded audios =
     (case py_max (map shape1 audios) of
        Inl e \<Rightarrow> Inl e
      | Inr max_length \<Rightarrow>
          (case py_max (map shape0 audios) of
             Inl e \<Rightarrow> Inl e
           | Inr max_height \<Rightarrow>
               Inr (map (\<lambda>audio. np_pad2 audio (max_height - shape0 audio)
                                     (max_length - shape1 audio)) audios)))"

text \<open>\<^verbatim>\<open>spect[:, :, np.newaxis]\<close>: every value becomes a pixel of one channel.\<close>

definition newaxis :: "'a list list \<Rightarrow> 'a list list list" where
  "newaxis spect = map (map (\<lambda>v. [v])) spect"

text \<open>
  \<^verbatim>\<open>tf.image.resize(img, new_size, method='bilinear')\<close> on an image of shape
  \<open>(height, width, channels)\<close>: the result has shape \<open>(fst new_size, snd new_size, channels)\<close>; an
  image without pixels and a size that is not positive are refused. The interpolation is
  floating-point arithmetic and stays a parameter: \<open>interp img new_size i j c\<close> is the value
  of the result at row \<open>i\<close>, column \<open>j\<close>, channel \<open>c\<close>.
\<close>

definition tf_image_resize ::
  "('a list list list \<Rightarrow> nat \<times> nat \<Rightarrow> nat \<Rightarrow> nat \<Rightarrow> nat \<Rightarrow> 'a) \<Rightarrow>
   'a list list list \<Rightarrow> nat \<times> nat \<Rightarrow> py_error + 'a list list list" where
  "tf_image_resize interp img new_size =
     (let height = length img;
          width = (case img of [] \<Rightarrow> 0 | row # _ \<Rightarrow> length row);
          channels = (case img of [] \<Rightarrow> 0 | row # _ \<Rightarrow> (case row of [] \<Rightarrow> 0 | px # _ \<Rightarrow> length px))
      in if height = 0 \<or> width = 0 \<or> fst new_size = 0 \<or> snd new_size = 0 then Inl InvalidArgumentError
         else Inr (map (\<lambda>i. map (\<lambda>j. map (\<lambda>c. interp img new_size i j c) [0..<channels])
                                [0..<snd new_size])
                     [0..<fst new_size]))"

text \<open>A list comprehension stops at the first element that raises.\<close>

primrec collect :: "('e + 'b) list \<Rightarrow> 'e + 'b list" where
  "collect [] = Inr []"
| "collect (r # rs) =
     (case r of
        Inl e \<Rightarrow> Inl e
      | Inr x \<Rightarrow> (case collect rs of Inl e \<Rightarrow> Inl e | Inr xs \<Rightarrow> Inr (x # xs)))"

text \<open>
  \<^verbatim>\<open>np.repeat(a, repeats, axis=3)\<close> on a four-dimensional array: every entry along the
  last axis is repeated in place.
\<close>

definition np_repeat_axis3 :: "nat \<Rightarrow> 'a list list list list \<Rightarrow> 'a list list list list" where
  "np_repeat_axis3 repeats a = map (map (map (\<lambda>px. concat (map (replicate repeats) px)))) a"

text \<open>
  \<^verbatim>\<open>prepare_spectrograms\<close>. From an empty list \<^verbatim>\<open>np.array\<close> makes an array of one
  dimension, on which \<^verbatim>\<open>np.repeat(..., axis=3)\<close> raises.
\<close>

definition prepare_spectrograms ::
  "('a list list list \<Rightarrow> nat \<times> nat \<Rightarrow> nat \<Rightarrow> nat \<Rightarrow> nat \<Rightarrow> 'a) \<Rightarrow>
   'a list list list \<Rightarrow> nat \<times> nat \<Rightarrow> py_error + 'a list list list list" where
  "prepare_spectrograms interp spectrograms target_size =
     (case collect (map (\<lambda>spect. tf_image_resize interp (newaxis spect) target_size) spectrograms) of
        Inl e \<Rightarrow> Inl e
      | Inr resized_spectrograms \<Rightarrow>
          if resized_spectrograms = [] then Inl AxisError
          else Inr (np_repeat_axis3 3 resized_spectrograms))"

text \<open>A stand-in interpolation for running the preparation: the top-left pixel.\<close>

definition demo_interp :: "real list list list \<Rightarrow> nat \<times> nat \<Rightarrow> nat \<Rightarrow> nat \<Rightarrow> nat \<Rightarrow> real" where
  "demo_interp img new_size i j c = img ! 0 ! 0 ! c"

subsection \<open>Splitting into training and evaluation data\<close>

text \<open>
  The script calls \<^verbatim>\<open>train_test_split(prepared_spectrograms, labels_categorical,
  test_size=0.2, random_state=42)\<close> of scikit-learn. With a fractional test size the
  library takes \<^verbatim>\<open>n_test = ceil(test_size * n_samples)\<close> and
  \<^verbatim>\<open>n_train = n_samples - n_test\<close>, and refuses an empty training set. The product is
  taken here in exact arithmetic; for \<open>0.2\<close> the double-precision product has the same
  ceiling. The test indices are the first \<^verbatim>\<open>n_test\<close> entries of a random permutation
  of \<^verbatim>\<open>range(n_samples)\<close>, the training indices the \<^verbatim>\<open>n_train\<close> entries after them.
  The permutation drawn by the generator seeded with 42 is a parameter.
\<close>

definition validate_shuffle_split :: "nat \<Rightarrow> real \<Rightarrow> py_error + nat \<times> nat" where
  "validate_shuffle_split n_samples test_size =
     (if test_size \<le> 0 \<or> test_size \<ge> 1 then Inl ValueError
      else (let n_test = nat \<lceil>test_size * real n_samples\<rceil>;
                n_train = n_samples - n_test
            in if n_train = 0 then Inl ValueError else Inr (n_train, n_test)))"

definition shuffle_split :: "(nat \<Rightarrow> nat list) \<Rightarrow> nat \<Rightarrow> real \<Rightarrow> py_error + nat list \<times> nat list" where
  "shuffle_split permutation n_samples test_size =
     (case validate_shuffle_split n_samples test_size of
        Inl e \<Rightarrow> Inl e
      | Inr (n_train, n_test) \<Rightarrow>
          (let p = permutation n_samples;
               ind_test = take n_test p;
               ind_train = take n_train (drop n_test p)
           in Inr (ind_train, ind_test)))"

definition safe_indexing :: "'a list \<Rightarrow> nat list \<Rightarrow> 'a list" where
  "safe_indexing a indices = map (\<lambda>i. a ! i) indices"

definition train_test_split ::
  "(nat \<Rightarrow> nat list) \<Rightarrow> 'x list \<Rightarrow> 'y list \<Rightarrow> real \<Rightarrow>
   py_error + 'x list \<times> 'x list \<times> 'y list \<times> 'y list" where
  "train_test_split permutation X y test_size =
     (if length X \<noteq> length y then Inl ValueError
      else case shuffle_split permutation (length X) test_size of
             Inl e \<Rightarrow> Inl e
           | Inr (train, test) \<Rightarrow>
               Inr (safe_indexing X train, safe_indexing X test,
                    safe_indexing y train, safe_indexing y test))"

text \<open>A stand-in permutation for running the split: the indices in descending order.\<close>

definition demo_permutation :: "nat \<Rightarrow> nat list" where
  "demo_permutation n = rev [0..<n]"

subsection \<open>The training loop and its callbacks\<close>

text \<open>
  The last code cell of the pipeline trains with
  \<^verbatim>\<open>model.fit(x=train_generator, epochs=100, validation_data=(X_test, y_test),
  callbacks=[checkpoint_callback, reduce_lr_callback, early_stopping_callback])\<close>.
  The classifier and its training are opaque: \<open>train_epoch epoch lr w\<close> is the state of
  the classifier after one more epoch from the state \<open>w\<close> at learning rate \<open>lr\<close>, and
  \<open>evaluate w\<close> is its loss on the evaluation data. Losses are real numbers. The record
  holds what the loop and the three Keras callbacks keep between epochs; a best value of
  \<open>None\<close> is the initial \<^verbatim>\<open>np.Inf\<close>.
\<close>

record 'w fit_state =
  weights :: 'w
  learning_rate :: real
  stop_training :: bool
  history_val_loss :: "real list"
  checkpoint_best :: "real option"
  checkpoint_file :: "'w option"
  reduce_lr_best :: "real option"
  reduce_lr_wait :: nat
  es_wait :: nat
  es_best :: "real option"
  es_best_weights :: "'w option"
  es_stopped_epoch :: nat

definition np_less :: "real \<Rightarrow> real option \<Rightarrow> bool" where
  "np_less current best = (case best of None \<Rightarrow> True | Some b \<Rightarrow> current < b)"

text \<open>
  \<^verbatim>\<open>ModelCheckpoint('models/best_model.h5', save_best_only=True, monitor='val_loss',
  mode='min')\<close>: the model is written to the file when the loss is strictly below the best
  so far.
\<close>

definition ModelCheckpoint_on_epoch_end :: "real \<Rightarrow> 'w fit_state \<Rightarrow> 'w fit_state" where
  "ModelCheckpoint_on_epoch_end current s =
     (if np_less current (checkpoint_best s)
      then s\<lparr>checkpoint_best := Some current, checkpoint_file := Some (weights s)\<rparr>
      else s)"

text \<open>
  \<^verbatim>\<open>ReduceLROnPlateau(monitor='val_loss', factor=0.1, patience=10, min_lr=0.00001)\<close>,
  with the default \<^verbatim>\<open>min_delta=1e-4\<close> and no cooldown.
\<close>

definition ReduceLROnPlateau_on_epoch_end :: "real \<Rightarrow> 'w fit_state \<Rightarrow> 'w fit_state" where
  "ReduceLROnPlateau_on_epoch_end current s =
     (if (case reduce_lr_best s of None \<Rightarrow> True | Some b \<Rightarrow> current < b - 0.0001)
      then s\<lparr>reduce_lr_best := Some current, reduce_lr_wait := 0\<rparr>
      else (let s1 = s\<lparr>reduce_lr_wait := reduce_lr_wait s + 1\<rparr>
            in if reduce_lr_wait s1 \<ge> 10 \<and> learning_rate s1 > 0.00001
               then s1\<lparr>learning_rate := max (learning_rate s1 * 0.1) 0.00001, reduce_lr_wait := 0\<rparr>
               else s1))"

text \<open>
  \<^verbatim>\<open>EarlyStopping(monitor='val_loss', patience=20, restore_best_weights=True)\<close>, with
  the default \<^verbatim>\<open>min_delta=0\<close>: the wait counts the epochs since the loss last fell
  strictly below the best; when it reaches the patience the callback sets
  \<^verbatim>\<open>stop_training\<close> and puts the best weights back.
\<close>

definition EarlyStopping_on_epoch_end :: "nat \<Rightarrow> real \<Rightarrow> 'w fit_state \<Rightarrow> 'w fit_state" where
  "EarlyStopping_on_epoch_end epoch current s =
     (let s1 = (if es_best_weights s = None then s\<lparr>es_best_weights := Some (weights s)\<rparr> else s);
          s2 = s1\<lparr>es_wait := es_wait s1 + 1\<rparr>;
          s3 = (if np_less current (es_best s2)
                then s2\<lparr>es_best := Some current, es_best_weights := Some (weights s2), es_wait := 0\<rparr>
                else s2)
      in if es_wait s3 \<ge> 20 \<and> epoch > 0
         then s3\<lparr>es_stopped_epoch := epoch, stop_training := True,
                 weights := (case es_best_weights s3 of None \<Rightarrow> weights s3 | Some w \<Rightarrow> w)\<rparr>
         else s3)"

text \<open>
  One pass of the loop of \<^verbatim>\<open>fit\<close>: train, evaluate, call the callbacks in the order of
  the list, record the loss in the history.
\<close>

definition run_epoch ::
  "(nat \<Rightarrow> real \<Rightarrow> 'w \<Rightarrow> 'w) \<Rightarrow> ('w \<Rightarrow> real) \<Rightarrow> nat \<Rightarrow> 'w fit_state \<Rightarrow> 'w fit_state" where
  "run_epoch train_epoch evaluate epoch s =
     (let s1 = s\<lparr>weights := train_epoch epoch (learning_rate s) (weights s)\<rparr>;
          val_loss = evaluate (weights s1);
          s2 = ModelCheckpoint_on_epoch_end val_loss s1;
          s3 = ReduceLROnPlateau_on_epoch_end val_loss s2;
          s4 = EarlyStopping_on_epoch_end epoch val_loss s3
      in s4\<lparr>history_val_loss := history_val_loss s4 @ [val_loss]\<rparr>)"

text \<open>The loop over the epochs, left as soon as \<^verbatim>\<open>stop_training\<close> is set.\<close>

fun fit_epochs ::
  "(nat \<Rightarrow> real \<Rightarrow> 'w \<Rightarrow> 'w) \<Rightarrow> ('w \<Rightarrow> real) \<Rightarrow> nat \<Rightarrow> nat \<Rightarrow> 'w fit_state \<Rightarrow> 'w fit_state" where
  "fit_epochs train_epoch evaluate 0 epoch s = s"
| "fit_epochs train_epoch evaluate (Suc remaining) epoch s =
     (let s' = run_epoch train_epoch evaluate epoch s
      in if stop_training s' then s'
         else fit_epochs train_epoch evaluate remaining (Suc epoch) s')"

text \<open>\<^verbatim>\<open>fit\<close> with \<^verbatim>\<open>epochs=100\<close>; the optimizer \<^verbatim>\<open>'adam'\<close> starts at 0.001.\<close>

definition fit :: "(nat \<Rightarrow> real \<Rightarrow> 'w \<Rightarrow> 'w) \<Rightarrow> ('w \<Rightarrow> real) \<Rightarrow> 'w \<Rightarrow> 'w fit_state" where
  "fit train_epoch evaluate w0 =
     fit_epochs train_epoch evaluate 100 0
       \<lparr> weights = w0, learning_rate = 0.001, stop_training = False, history_val_loss = [],
         checkpoint_best = None, checkpoint_file = None,
         reduce_lr_best = None, reduce_lr_wait = 0,
         es_wait = 0, es_best = None, es_best_weights = None, es_stopped_epoch = 0 \<rparr>"

text \<open>
  A stand-in classifier for running the loop: its state counts the epochs it was trained
  for, and its loss is 0.9 after the first epoch and 0.85 from then on.
\<close>

definition demo_train_epoch :: "nat \<Rightarrow> real \<Rightarrow> nat \<Rightarrow> nat" where
  "demo_train_epoch epoch lr w = Suc w"

definition demo_evaluate :: "nat \<Rightarrow> real" where
  "demo_evaluate w = (if w = 1 then 0.9 else 0.85)"


text \<open>
  For the invariant of the loop. Epoch \<open>j\<close> brings no improvement when its loss is not
  below the least loss of the epochs before it; the patience is exhausted at epoch \<open>e\<close>
  when none of the twenty epochs up to \<open>e\<close> brings one. \<open>running\<close> holds of the state
  between two epochs while the loop goes on, \<open>early_stopped\<close> of the state in which the
  early stop leaves it.
\<close>

definition no_improvement :: "real list \<Rightarrow> nat \<Rightarrow> bool" where
  "no_improvement h j \<longleftrightarrow> 0 < j \<and> Min (set (take j h)) \<le> h ! j"

definition patience_exhausted :: "real list \<Rightarrow> nat \<Rightarrow> bool" where
  "patience_exhausted h e \<longleftrightarrow> 20 \<le> e \<and> (\<forall>j. e < j + 20 \<and> j \<le> e \<longrightarrow> no_improvement h j)"

definition running :: "('w \<Rightarrow> real) \<Rightarrow> 'w fit_state \<Rightarrow> bool" where
  "running evaluate s \<longleftrightarrow>
     \<not> stop_training s \<and> checkpoint_best s = es_best s \<and> checkpoint_file s = es_best_weights s
     \<and> (let h = history_val_loss s; n = length h
        in if h = [] then es_best s = None \<and> es_best_weights s = None \<and> es_wait s = 0
           else es_best s = Some (Min (set h))
              \<and> (\<exists>w. es_best_weights s = Some w \<and> evaluate w = Min (set h))
              \<and> es_wait s < 20 \<and> es_wait s < n
              \<and> \<not> no_improvement h (n - 1 - es_wait s)
              \<and> h ! (n - 1 - es_wait s) = Min (set h)
              \<and> (\<forall>j. n - 1 - es_wait s < j \<and> j < n \<longrightarrow> no_improvement h j)
              \<and> (\<forall>j < n. \<not> patience_exhausted h j))"

definition early_stopped :: "('w \<Rightarrow> real) \<Rightarrow> 'w fit_state \<Rightarrow> bool" where
  "early_stopped evaluate s \<longleftrightarrow>
     stop_training s
     \<and> (let h = history_val_loss s; n = length h
        in 21 \<le> n \<and> es_stopped_epoch s = n - 1
         \<and> patience_exhausted h (n - 1)
         \<and> (\<forall>j. j + 1 < n \<longrightarrow> \<not> patience_exhausted h j)
         \<and> Some (weights s) = checkpoint_file s
         \<and> evaluate (weights s) = Min (set h)
         \<and> h ! (n - 21) = Min (set h))"

section \<open>Properties of the audio normalisation\<close>

lemma py_slice_centre:
  assumes "r < int (length w)"
  shows "py_slice w ((int (length w) - r) div 2) ((int (length w) - r) div 2 + r) =
         take (nat r) (drop (nat ((int (length w) - r) div 2)) w)"
proof (cases "0 \<le> r")
  case True
  define s where "s = (int (length w) - r) div 2"
  have s0: "0 \<le> s" and sr: "s + r \<le> int (length w)"
    using assms True by (auto simp: s_def)
  have "slice_bound (length w) s = nat s" "slice_bound (length w) (s + r) = nat (s + r)"
    using s0 sr True by (auto simp: slice_bound_def)
  moreover have "nat (s + r) - nat s = nat r"
    using s0 True by linarith
  ultimately show ?thesis
    by (simp add: py_slice_def s_def)
next
  case False
  define s where "s = (int (length w) - r) div 2"
  have s0: "0 \<le> s" using assms False by (auto simp: s_def)
  have "slice_bound (length w) (s + r) \<le> slice_bound (length w) s"
    using s0 False assms unfolding slice_bound_def s_def by auto
  then show ?thesis
    using False by (simp add: py_slice_def s_def)
qed

lemma pad_or_trim_total: "\<exists>a. pad_or_trim w d sr = Some a"
  by (auto simp: pad_or_trim_def np_pad_def Let_def)

lemma pad_short:
  assumes "int (length w) < sr * d"
  shows "pad_or_trim w d sr =
    Some (replicate (nat ((sr * d - int (length w)) div 2)) 0 @ w @
          replicate (nat (sr * d - int (length w) - (sr * d - int (length w)) div 2)) 0)"
  using assms by (auto simp: pad_or_trim_def np_pad_def Let_def)

lemma trim_long:
  assumes "int (length w) > sr * d"
  shows "pad_or_trim w d sr =
    Some (take (nat (sr * d)) (drop (nat ((int (length w) - sr * d) div 2)) w))"
  using assms py_slice_centre [of "sr * d" w] by (simp add: pad_or_trim_def Let_def)

lemma pad_same: "int (length w) = sr * d \<Longrightarrow> pad_or_trim w d sr = Some w"
  by (simp add: pad_or_trim_def)

lemma pad_or_trim_length:
  assumes "0 \<le> sr * d" "pad_or_trim w d sr = Some a"
  shows "int (length a) = sr * d"
proof -
  define r where "r = sr * d"
  consider "int (length w) < r" | "int (length w) > r" | "int (length w) = r" by linarith
  then show ?thesis
  proof cases
    case 1
    then show ?thesis using assms pad_short [of w sr d] unfolding r_def by auto
  next
    case 2
    then have "a = take (nat r) (drop (nat ((int (length w) - r) div 2)) w)"
      using assms trim_long [of sr d w] unfolding r_def by simp
    moreover have "nat r \<le> length w - nat ((int (length w) - r) div 2)"
      using 2 assms(1) unfolding r_def by linarith
    ultimately show ?thesis using assms(1) unfolding r_def by simp
  next
    case 3
    then show ?thesis using assms pad_same [of w sr d] unfolding r_def by simp
  qed
qed

lemma pad_or_trim_negative:
  assumes "sr * d < 0" "pad_or_trim w d sr = Some a"
  shows "a = []"
  using assms trim_long [of sr d w] by simp

lemma load_and_pad_audio_None:
  "load_and_pad_audio env f d sr = None \<longleftrightarrow> librosa_load env f sr = None"
proof (cases "librosa_load env f sr")
  case None
  then show ?thesis by (simp add: load_and_pad_audio_def)
next
  case (Some w)
  obtain a where "pad_or_trim w d sr = Some a"
    using pad_or_trim_total by blast
  with Some show ?thesis by (simp add: load_and_pad_audio_def)
qed

lemma load_and_pad_audio_Some:
  "load_and_pad_audio env f d sr = Some (a, r) \<longleftrightarrow>
     (\<exists>w. librosa_load env f sr = Some w \<and> pad_or_trim w d sr = Some a \<and> r = sr)"
  by (auto simp: load_and_pad_audio_def split: option.splits)

text \<open>
  Claim C4. For a duration \<open>d\<close> and a sample rate \<open>sr\<close> (neither negative), every waveform
  that \<^verbatim>\<open>load_and_pad_audio\<close> returns has exactly \<open>d * sr\<close> samples, whatever the length
  of the decoded input; and it returns one whenever the file decodes.
\<close>

theorem C4_normalized_length:
  assumes "0 \<le> duration" and "0 \<le> sr"
  shows "(\<forall>audio r. load_and_pad_audio env file_path duration sr = Some (audio, r) \<longrightarrow>
            int (length audio) = duration * sr)
       \<and> (\<forall>w. librosa_load env file_path sr = Some w \<longrightarrow>
            (\<exists>audio. load_and_pad_audio env file_path duration sr = Some (audio, sr)))"
proof -
  have nonneg: "0 \<le> sr * duration"
    using assms by simp
  have "int (length audio) = duration * sr"
    if "load_and_pad_audio env file_path duration sr = Some (audio, r)" for audio r
    using that pad_or_trim_length [OF nonneg] by (auto simp: load_and_pad_audio_Some mult.commute)
  moreover have "\<exists>audio. load_and_pad_audio env file_path duration sr = Some (audio, sr)"
    if "librosa_load env file_path sr = Some w" for w
    using that pad_or_trim_total [of w duration sr] by (auto simp: load_and_pad_audio_Some)
  ultimately show ?thesis by blast
qed

theorem C4_normalized_length_witness:
  "(0::int) \<le> 2 \<and> (0::int) \<le> 4
   \<and> librosa_load demo_env ''data/thunder/t1.wav'' 4 = Some [1, 2, 3]
   \<and> load_and_pad_audio demo_env ''data/thunder/t1.wav'' 2 4 = Some ([0, 0, 1, 2, 3, 0, 0, 0], 4)
   \<and> int (length [0, 0, 1, 2, 3, 0, 0, 0 :: real]) = 2 * 4"
  using C4_normalized_length [of 2 4 demo_env "''data/thunder/t1.wav''"]
  by (simp add: load_and_pad_audio_def demo_env_def demo_load_def pad_or_trim_def np_pad_def
        Let_def eval_nat_numeral)

text \<open>
  Claim C9. Normalisation is idempotent: a waveform that already has the required
  \<open>sr * d\<close> samples is returned unchanged, and so normalising the result of a
  normalisation changes nothing.
\<close>

theorem C9_idempotent:
  "(int (length w) = sr * d \<longrightarrow> pad_or_trim w d sr = Some w)
   \<and> (\<forall>a. pad_or_trim w d sr = Some a \<longrightarrow> pad_or_trim a d sr = Some a)"
proof (intro conjI impI allI)
  assume "int (length w) = sr * d"
  then show "pad_or_trim w d sr = Some w" by (rule pad_same)
next
  fix a
  assume a: "pad_or_trim w d sr = Some a"
  show "pad_or_trim a d sr = Some a"
  proof (cases "0 \<le> sr * d")
    case True
    then show ?thesis using a pad_or_trim_length pad_same by metis
  next
    case False
    then have "a = []" using a pad_or_trim_negative by (metis not_le)
    then show ?thesis using False trim_long [of sr d "[]"] by simp
  qed
qed

theorem C9_idempotent_witness:
  "int (length [7, 8, 9, 10 :: real]) = 2 * 2
   \<and> pad_or_trim [7, 8, 9, 10 :: real] 2 2 = Some [7, 8, 9, 10]
   \<and> pad_or_trim [1 :: real] 2 2 = Some [0, 1, 0, 0]
   \<and> pad_or_trim [0, 1, 0, 0 :: real] 2 2 = Some [0, 1, 0, 0]"
  using C9_idempotent [of "[7, 8, 9, 10 :: real]" 2 2] C9_idempotent [of "[1 :: real]" 2 2]
  by (simp add: pad_or_trim_def np_pad_def Let_def eval_nat_numeral)

text \<open>
  Claim C10. Normalisation keeps the amplitudes it retains. A waveform shorter than the
  required length appears unchanged in the output from index
  \<open>pad_left = (required - len) div 2\<close> on, every other entry of the output is zero, and
  the right pad is the left pad or one more. A waveform longer than the required length
  is cut to the slice of \<open>required\<close> samples that starts at \<open>(len - required) div 2\<close>.
\<close>

theorem C10_retained_amplitudes:
  fixes w :: "'a::zero list"
  defines "n \<equiv> int (length w)"
  shows "(n < sr * d \<longrightarrow>
           (\<exists>out. pad_or_trim w d sr = Some out
              \<and> int (length out) = sr * d
              \<and> (let pad_left = nat ((sr * d - n) div 2);
                      pad_right = length out - length w - pad_left
                  in (\<forall>i < length w. out ! (pad_left + i) = w ! i)
                     \<and> (\<forall>i < length out. i < pad_left \<or> pad_left + length w \<le> i \<longrightarrow> out ! i = 0)
                     \<and> pad_left \<le> pad_right \<and> pad_right \<le> pad_left + 1)))
       \<and> (sr * d < n \<longrightarrow>
            pad_or_trim w d sr = Some (take (nat (sr * d)) (drop (nat ((n - sr * d) div 2)) w)))"
proof (intro conjI impI)
  assume short: "n < sr * d"
  define r where "r = sr * d"
  define pl where "pl = nat ((r - n) div 2)"
  define pr where "pr = nat (r - n - (r - n) div 2)"
  define out where "out = replicate pl (0::'a) @ w @ replicate pr 0"
  have out: "pad_or_trim w d sr = Some out"
    using short pad_short [of w sr d] by (simp add: out_def pl_def pr_def r_def n_def)
  have len: "int (length out) = r"
    using short unfolding out_def pl_def pr_def r_def n_def by simp
  have pr_eq: "length out - length w - pl = pr"
    by (simp add: out_def)
  have keep: "\<forall>i < length w. out ! (pl + i) = w ! i"
    by (simp add: out_def nth_append)
  have zero: "\<forall>i < length out. i < pl \<or> pl + length w \<le> i \<longrightarrow> out ! i = 0"
    by (auto simp: out_def nth_append)
  have bal: "pl \<le> pr \<and> pr \<le> pl + 1"
    using short unfolding pl_def pr_def r_def n_def by linarith
  show "\<exists>out. pad_or_trim w d sr = Some out
              \<and> int (length out) = sr * d
              \<and> (let pad_left = nat ((sr * d - n) div 2);
                      pad_right = length out - length w - pad_left
                  in (\<forall>i < length w. out ! (pad_left + i) = w ! i)
                     \<and> (\<forall>i < length out. i < pad_left \<or> pad_left + length w \<le> i \<longrightarrow> out ! i = 0)
                     \<and> pad_left \<le> pad_right \<and> pad_right \<le> pad_left + 1)"
    using out len pr_eq keep zero bal unfolding Let_def r_def pl_def by (intro exI [of _ out]) simp
next
  assume "sr * d < n"
  then show "pad_or_trim w d sr = Some (take (nat (sr * d)) (drop (nat ((n - sr * d) div 2)) w))"
    using trim_long [of sr d w] by (simp add: n_def)
qed

theorem C10_retained_amplitudes_witness:
  "int (length [1, 2, 3 :: real]) < 2 * 3
   \<and> pad_or_trim [1, 2, 3 :: real] 3 2 = Some [0, 1, 2, 3, 0, 0]
   \<and> 2 * 1 < int (length [1, 2, 3, 4, 5 :: real])
   \<and> pad_or_trim [1, 2, 3, 4, 5 :: real] 1 2 = Some [2, 3]"
  using C10_retained_amplitudes [of "[1, 2, 3 :: real]" 2 3]
    C10_retained_amplitudes [of "[1, 2, 3, 4, 5 :: real]" 2 1]
  by (simp add: pad_or_trim_def np_pad_def py_slice_def slice_bound_def Let_def eval_nat_numeral)

section \<open>Properties of the corpus loader\<close>

lemma sample_of_None: "sample_of env log_mel file = None \<longleftrightarrow> \<not> decodes env file"
  by (simp add: sample_of_def decodes_def load_and_pad_audio_None)

lemma map_filter_append: "List.map_filter f (xs @ ys) = List.map_filter f xs @ List.map_filter f ys"
  by (simp add: List.map_filter_def)

lemma load_files_eq:
  "load_files env log_mel class_path label files (audios, labels) =
     (audios @ List.map_filter (sample_of env log_mel) (map (os_path_join env class_path) files),
      labels @ replicate (length (filter (decodes env) (map (os_path_join env class_path) files))) label)"
proof (induction files arbitrary: audios labels)
  case Nil
  then show ?case by simp
next
  case (Cons f files)
  show ?case
  proof (cases "load_and_pad_audio env (os_path_join env class_path f)
                  AUDIO_CLIP_DURATION AUDIO_SAMPLE_RATE")
    case None
    then have "\<not> decodes env (os_path_join env class_path f)"
      by (simp add: decodes_def load_and_pad_audio_None)
    with None show ?thesis
      by (simp add: Cons.IH sample_of_def)
  next
    case (Some p)
    obtain audio sr where p: "p = (audio, sr)" by (cases p)
    have "decodes env (os_path_join env class_path f)"
      using Some load_and_pad_audio_None
        [of env "os_path_join env class_path f" AUDIO_CLIP_DURATION AUDIO_SAMPLE_RATE]
      by (simp add: decodes_def)
    with Some p show ?thesis
      by (simp add: Cons.IH sample_of_def replicate_app_Cons_same)
  qed
qed

lemma load_classes_eq:
  assumes "\<forall>label \<in> set ls. os_listdir env (os_path_join env path label) \<noteq> None"
  shows "load_classes env log_mel path ls (audios, labels) =
     Inr (audios @ List.map_filter (sample_of env log_mel) (concat (map (class_files env path) ls)),
          labels @ concat (map (\<lambda>l. replicate (length (filter (decodes env) (class_files env path l))) l) ls))"
  using assms
proof (induction ls arbitrary: audios labels)
  case Nil
  then show ?case by simp
next
  case (Cons l ls)
  then obtain files where files: "os_listdir env (os_path_join env path l) = Some files"
    by auto
  have rest: "\<forall>label \<in> set ls. os_listdir env (os_path_join env path label) \<noteq> None"
    using Cons.prems by simp
  have cf: "class_files env path l = map (os_path_join env (os_path_join env path l)) files"
    using files by (simp add: class_files_def)
  show ?case
    using files by (simp add: load_files_eq Cons.IH [OF rest] cf map_filter_append Let_def)
qed

lemma load_classes_Inl:
  assumes "\<exists>label \<in> set ls. os_listdir env (os_path_join env path label) = None"
  shows "load_classes env log_mel path ls acc = Inl OSError"
  using assms
proof (induction ls arbitrary: acc)
  case Nil
  then show ?case by simp
next
  case (Cons l ls)
  then show ?case by (cases "os_listdir env (os_path_join env path l)") auto
qed

lemma load_audio_files_eq:
  assumes "os_listdir env path = Some ds"
    and "\<forall>label \<in> set (class_dirs env path). os_listdir env (os_path_join env path label) \<noteq> None"
  shows "load_audio_files env log_mel path =
     Inr (List.map_filter (sample_of env log_mel) (corpus_files env path),
          concat (map (\<lambda>l. replicate (length (filter (decodes env) (class_files env path l))) l)
                    (class_dirs env path)),
          class_dirs env path)"
  using assms load_classes_eq [of "class_dirs env path" env path log_mel "[]" "[]"]
  by (simp add: load_audio_files_def class_dirs_def corpus_files_def Let_def)

lemma map_filter_the:
  "List.map_filter f xs = map (\<lambda>x. the (f x)) (filter (\<lambda>x. f x \<noteq> None) xs)"
  by (induction xs) auto

lemma load_audio_files_Inr:
  assumes "load_audio_files env log_mel path = Inr (audios, labels, class_labels)"
  shows "class_labels = class_dirs env path
       \<and> audios = List.map_filter (sample_of env log_mel) (corpus_files env path)
       \<and> labels = concat (map (\<lambda>l. replicate (length (filter (decodes env) (class_files env path l))) l)
                    (class_dirs env path))"
proof -
  obtain ds where ds: "os_listdir env path = Some ds"
    using assms by (cases "os_listdir env path") (auto simp: load_audio_files_def)
  have "\<forall>label \<in> set (class_dirs env path). os_listdir env (os_path_join env path label) \<noteq> None"
  proof (rule ccontr)
    assume "\<not> ?thesis"
    then have "\<exists>label \<in> set (class_dirs env path). os_listdir env (os_path_join env path label) = None"
      by simp
    then have "load_classes env log_mel path (class_dirs env path) ([], []) = Inl OSError"
      by (rule load_classes_Inl)
    then show False
      using assms ds by (simp add: load_audio_files_def class_dirs_def Let_def)
  qed
  from load_audio_files_eq [OF ds this, of log_mel] assms show ?thesis by simp
qed

lemma length_labels_concat:
  "length (concat (map (\<lambda>l. replicate (length (filter P (g l))) l) ls)) =
   length (filter P (concat (map g ls)))"
  by (induction ls) simp_all

text \<open>
  Claim C3, as amended. The claim asks for a failure when the root has no class
  subdirectories. \<^verbatim>\<open>load_audio_files\<close> has no such check: for a root that can be
  listed and holds no directory, both loops run zero times and it returns the three
  empty lists.
\<close>

theorem C3_no_classes_returns_empty:
  assumes "os_listdir env path = Some ds"
    and "\<forall>d \<in> set ds. \<not> os_path_isdir env (os_path_join env path d)"
  shows "load_audio_files env log_mel path = Inr ([], [], [])"
proof -
  have "filter (\<lambda>d. os_path_isdir env (os_path_join env path d)) ds = []"
    using assms(2) by (simp add: filter_empty_conv)
  then show ?thesis
    using assms(1) by (simp add: load_audio_files_def)
qed

theorem C3_no_classes_returns_empty_witness:
  "os_listdir demo_env ''flat'' = Some [''notes.txt'']
   \<and> \<not> os_path_isdir demo_env (os_path_join demo_env ''flat'' ''notes.txt'')
   \<and> load_audio_files demo_env demo_log_mel ''flat'' = Inr ([], [], [])"
  using C3_no_classes_returns_empty [of demo_env "''flat''" "[''notes.txt'']" demo_log_mel]
  by (simp add: demo_env_def demo_listdir_def)

text \<open>
  Claim C3 as stated fails on the root \<^verbatim>\<open>empty\<close>: it has no class subdirectory, and
  the loader returns normally.
\<close>

theorem C3_empty_root_counterexample:
  "class_dirs demo_env ''empty'' = []
   \<and> load_audio_files demo_env demo_log_mel ''empty'' = Inr ([], [], [])"
  by (simp add: class_dirs_def load_audio_files_def demo_env_def demo_listdir_def)

text \<open>
  Claim C7. When the directories can be listed and exactly one of the \<open>N\<close> files of the
  corpus fails to decode, \<^verbatim>\<open>load_audio_files\<close> returns normally with \<open>N - 1\<close> samples
  and as many labels: the samples of the files that decode, in the order of enumeration.
\<close>

theorem C7_one_failure_skipped:
  assumes root: "os_listdir env path = Some ds"
    and classes: "\<forall>label \<in> set (class_dirs env path).
                    os_listdir env (os_path_join env path label) \<noteq> None"
    and total: "length (corpus_files env path) = N"
    and one: "length (filter (\<lambda>f. \<not> decodes env f) (corpus_files env path)) = 1"
  shows "\<exists>audios labels.
           load_audio_files env log_mel path = Inr (audios, labels, class_dirs env path)
         \<and> length audios = N - 1 \<and> length labels = N - 1
         \<and> audios = map (\<lambda>f. the (sample_of env log_mel f))
                      (filter (decodes env) (corpus_files env path))"
proof -
  let ?files = "corpus_files env path"
  let ?labels = "concat (map (\<lambda>l. replicate (length (filter (decodes env) (class_files env path l))) l)
                    (class_dirs env path))"
  have eq: "load_audio_files env log_mel path =
          Inr (List.map_filter (sample_of env log_mel) ?files, ?labels, class_dirs env path)"
    using root classes by (rule load_audio_files_eq)
  have "length (filter (decodes env) ?files) + length (filter (\<lambda>f. \<not> decodes env f) ?files)
          = length ?files"
    by (rule sum_length_filter_compl)
  then have ok: "length (filter (decodes env) ?files) = N - 1"
    using total one by simp
  have audios: "List.map_filter (sample_of env log_mel) ?files =
          map (\<lambda>f. the (sample_of env log_mel f)) (filter (decodes env) ?files)"
    by (simp add: map_filter_the sample_of_None)
  have "length ?labels = length (filter (decodes env) ?files)"
    unfolding corpus_files_def by (rule length_labels_concat)
  then have labels: "length ?labels = N - 1"
    using ok by simp
  show ?thesis
    using eq ok audios labels by simp
qed

lemma demo_class_dirs: "class_dirs demo_env ''data'' = [''thunder'', ''rain'']"
  by (simp add: class_dirs_def demo_env_def demo_listdir_def)

lemma demo_corpus_files:
  "corpus_files demo_env ''data'' =
     [''data/thunder/t1.wav'', ''data/rain/r1.wav'', ''data/rain/broken.wav'']"
  by (simp add: corpus_files_def class_files_def demo_class_dirs)
     (simp add: demo_env_def demo_listdir_def)

theorem C7_one_failure_skipped_witness:
  "os_listdir demo_env ''data'' = Some [''thunder'', ''rain'', ''notes.txt'']
   \<and> class_dirs demo_env ''data'' = [''thunder'', ''rain'']
   \<and> os_listdir demo_env (os_path_join demo_env ''data'' ''thunder'') \<noteq> None
   \<and> os_listdir demo_env (os_path_join demo_env ''data'' ''rain'') \<noteq> None
   \<and> length (corpus_files demo_env ''data'') = 3
   \<and> filter (\<lambda>f. \<not> decodes demo_env f) (corpus_files demo_env ''data'') = [''data/rain/broken.wav'']
   \<and> (\<exists>audios labels.
         load_audio_files demo_env demo_log_mel ''data'' = Inr (audios, labels, [''thunder'', ''rain''])
       \<and> length audios = 2 \<and> length labels = 2)"
proof -
  have root: "os_listdir demo_env ''data'' = Some [''thunder'', ''rain'', ''notes.txt'']"
    by (simp add: demo_env_def demo_listdir_def)
  have lists: "os_listdir demo_env (os_path_join demo_env ''data'' ''thunder'') \<noteq> None"
    "os_listdir demo_env (os_path_join demo_env ''data'' ''rain'') \<noteq> None"
    by (simp_all add: demo_env_def demo_listdir_def)
  have classes: "\<forall>label \<in> set (class_dirs demo_env ''data'').
                   os_listdir demo_env (os_path_join demo_env ''data'' label) \<noteq> None"
    using lists by (simp add: demo_class_dirs)
  have total: "length (corpus_files demo_env ''data'') = 3"
    by (simp add: demo_corpus_files)
  have failing: "filter (\<lambda>f. \<not> decodes demo_env f) (corpus_files demo_env ''data'') =
                   [''data/rain/broken.wav'']"
    unfolding demo_corpus_files by (simp add: decodes_def demo_env_def demo_load_def)
  then have one: "length (filter (\<lambda>f. \<not> decodes demo_env f) (corpus_files demo_env ''data'')) = 1"
    by simp
  from C7_one_failure_skipped [OF root classes total one, of demo_log_mel]
  show ?thesis
    using root lists total failing by (auto simp: demo_class_dirs)
qed

section \<open>Properties of the label encoding\<close>

lemma index_of_less: "x \<in> set xs \<Longrightarrow> index_of xs x < length xs"
  by (induction xs) auto

lemma nth_index_of: "x \<in> set xs \<Longrightarrow> xs ! index_of xs x = x"
  by (induction xs) auto

lemma index_of_nth: "distinct xs \<Longrightarrow> i < length xs \<Longrightarrow> index_of xs (xs ! i) = i"
proof (induction xs arbitrary: i)
  case Nil
  then show ?case by simp
next
  case (Cons x xs)
  then show ?case by (cases i) auto
qed

lemma set_np_unique: "set (np_unique xs) = set xs"
  by (simp add: np_unique_def)

lemma strict_sorted_np_unique: "sorted_wrt (<) (np_unique xs)"
  by (simp add: np_unique_def strict_sorted_iff)

lemma np_unique_eq:
  assumes "sorted_wrt (<) cs" and "set cs = set xs"
  shows "np_unique xs = cs"
proof -
  have "sorted cs" "distinct cs"
    using assms(1) by (simp_all add: strict_sorted_iff)
  moreover have "sorted (np_unique xs)" "distinct (np_unique xs)"
    using strict_sorted_np_unique [of xs] by (simp_all add: strict_sorted_iff)
  ultimately show ?thesis
    using assms(2) set_np_unique [of xs] by (intro sorted_distinct_set_unique) simp_all
qed

lemma length_fit_transform: "length (fit_transform y) = length y"
  by (simp add: fit_transform_def)

lemma fit_transform_nth:
  "i < length y \<Longrightarrow> fit_transform y ! i = index_of (np_unique y) (y ! i)"
  by (simp add: fit_transform_def)

lemma set_labels_subset:
  "set (concat (map (\<lambda>l. replicate (k l) l) ls)) \<subseteq> set ls"
  by (induction ls) auto

text \<open>The target vectors are one-hot, as wide as there are distinct labels among the samples.\<close>

lemma index_of_image:
  assumes "distinct xs"
  shows "index_of xs ` set xs = {0..<length xs}"
proof
  show "index_of xs ` set xs \<subseteq> {0..<length xs}"
    by (auto simp: index_of_less)
next
  show "{0..<length xs} \<subseteq> index_of xs ` set xs"
  proof
    fix i assume "i \<in> {0..<length xs}"
    then have "i < length xs" by simp
    then have "index_of xs (xs ! i) = i" "xs ! i \<in> set xs"
      using assms by (simp_all add: index_of_nth)
    then show "i \<in> index_of xs ` set xs" by force
  qed
qed

lemma set_fit_transform: "set (fit_transform y) = {0..<card (set y)}"
proof -
  have d: "distinct (np_unique y)"
    using strict_sorted_np_unique [of y] by (simp add: strict_sorted_iff)
  have "set (fit_transform y) = index_of (np_unique y) ` set (np_unique y)"
    by (simp add: fit_transform_def set_np_unique)
  also have "\<dots> = {0..<length (np_unique y)}"
    using d by (rule index_of_image)
  also have "length (np_unique y) = card (set y)"
    using d distinct_card [of "np_unique y"] by (simp add: set_np_unique)
  finally show ?thesis .
qed

lemma Max_fit_transform:
  assumes "y \<noteq> []"
  shows "Max (set (fit_transform y)) + 1 = card (set y)"
proof -
  have pos: "0 < card (set y)"
    using assms by (simp add: card_gt_0_iff)
  then have "Max {0..<card (set y)} = card (set y) - 1"
    by (intro Max_eqI) auto
  then show ?thesis using pos by (simp add: set_fit_transform)
qed

lemma labels_categorical_rows:
  assumes "labels \<noteq> []"
  shows "labels_categorical labels =
           Inr (map (\<lambda>k. (replicate (card (set labels)) 0)[k := 1]) (fit_transform labels))"
proof -
  have "fit_transform labels \<noteq> []"
    using assms by (simp add: fit_transform_def)
  then show ?thesis
    using Max_fit_transform [OF assms]
    by (simp add: labels_categorical_def to_categorical_def Let_def del: One_nat_def)
qed

text \<open>
  Claim C2, as amended. The class index of a sample is the position of its label among
  the distinct labels of the loaded samples in ascending order (the classes of the
  \<^verbatim>\<open>LabelEncoder\<close>), not its position in the order in which the directories were
  listed. It is a function of the label alone, so every sample of the run is encoded by
  the same mapping, and it can be decoded through the sorted classes. Where the listing
  is in strictly ascending order and every class has a loaded sample, the index is the
  position in \<^verbatim>\<open>class_labels\<close> as well.
\<close>

theorem C2_label_index:
  assumes "load_audio_files env log_mel path = Inr (audios, labels, class_labels)"
  shows "length (fit_transform labels) = length labels
       \<and> sorted_wrt (<) (np_unique labels)
       \<and> set (np_unique labels) = set labels
       \<and> set labels \<subseteq> set class_labels
       \<and> (\<forall>i < length labels.
             fit_transform labels ! i < length (np_unique labels)
           \<and> np_unique labels ! (fit_transform labels ! i) = labels ! i)
       \<and> (\<forall>i < length labels. \<forall>j < length labels.
             fit_transform labels ! i = fit_transform labels ! j \<longleftrightarrow> labels ! i = labels ! j)
       \<and> (sorted_wrt (<) class_labels \<and> set class_labels \<subseteq> set labels \<longrightarrow>
            (\<forall>i < length labels. fit_transform labels ! i = index_of class_labels (labels ! i)))"
proof -
  let ?classes = "np_unique labels"
  have sub: "set labels \<subseteq> set class_labels"
    using load_audio_files_Inr [OF assms] set_labels_subset by metis
  have mem: "labels ! i \<in> set ?classes" if "i < length labels" for i
    using that by (simp add: set_np_unique)
  have rt: "fit_transform labels ! i < length ?classes
          \<and> ?classes ! (fit_transform labels ! i) = labels ! i" if "i < length labels" for i
    using that mem [OF that] by (simp add: fit_transform_nth index_of_less nth_index_of)
  have inj: "fit_transform labels ! i = fit_transform labels ! j \<longleftrightarrow> labels ! i = labels ! j"
    if "i < length labels" "j < length labels" for i j
  proof
    assume "fit_transform labels ! i = fit_transform labels ! j"
    then show "labels ! i = labels ! j"
      using rt [OF that(1)] rt [OF that(2)] by metis
  next
    assume "labels ! i = labels ! j"
    then show "fit_transform labels ! i = fit_transform labels ! j"
      using that by (simp add: fit_transform_nth)
  qed
  have pos: "fit_transform labels ! i = index_of class_labels (labels ! i)"
    if "sorted_wrt (<) class_labels" "set class_labels \<subseteq> set labels" "i < length labels" for i
  proof -
    have "np_unique labels = class_labels"
      using that(1,2) sub by (intro np_unique_eq) auto
    then show ?thesis using that(3) by (simp add: fit_transform_nth)
  qed
  show ?thesis
    using sub rt inj pos length_fit_transform [of labels] strict_sorted_np_unique [of labels]
      set_np_unique [of labels]
    by blast
qed

lemma demo_roots:
  "os_listdir demo_env ''data'' = Some [''thunder'', ''rain'', ''notes.txt'']"
  "os_listdir demo_env ''sparse'' = Some [''rain'', ''thunder'']"
  "os_listdir demo_env ''tidy'' = Some [''hail'', ''wind'']"
  by (simp_all add: demo_env_def demo_listdir_def)

lemma demo_class_dirs_all:
  "class_dirs demo_env ''data'' = [''thunder'', ''rain'']"
  "class_dirs demo_env ''sparse'' = [''rain'', ''thunder'']"
  "class_dirs demo_env ''tidy'' = [''hail'', ''wind'']"
  by (simp_all add: class_dirs_def demo_env_def demo_listdir_def)

lemma demo_class_files:
  "class_files demo_env ''data'' ''thunder'' = [''data/thunder/t1.wav'']"
  "class_files demo_env ''data'' ''rain'' = [''data/rain/r1.wav'', ''data/rain/broken.wav'']"
  "class_files demo_env ''sparse'' ''rain'' = [''sparse/rain/r1.wav'']"
  "class_files demo_env ''sparse'' ''thunder'' = []"
  "class_files demo_env ''tidy'' ''hail'' = [''tidy/hail/h1.wav'']"
  "class_files demo_env ''tidy'' ''wind'' = [''tidy/wind/w1.wav'']"
  by (simp_all add: class_files_def demo_env_def demo_listdir_def)

lemma demo_listings:
  "\<forall>label \<in> set (class_dirs demo_env ''data''). os_listdir demo_env (os_path_join demo_env ''data'' label) \<noteq> None"
  "\<forall>label \<in> set (class_dirs demo_env ''sparse''). os_listdir demo_env (os_path_join demo_env ''sparse'' label) \<noteq> None"
  "\<forall>label \<in> set (class_dirs demo_env ''tidy''). os_listdir demo_env (os_path_join demo_env ''tidy'' label) \<noteq> None"
  unfolding demo_class_dirs_all by (simp_all add: demo_env_def demo_listdir_def)

lemma demo_decodes:
  "decodes demo_env ''data/thunder/t1.wav''"
  "decodes demo_env ''data/rain/r1.wav''"
  "\<not> decodes demo_env ''data/rain/broken.wav''"
  "decodes demo_env ''sparse/rain/r1.wav''"
  "decodes demo_env ''tidy/hail/h1.wav''"
  "decodes demo_env ''tidy/wind/w1.wav''"
  by (simp_all add: decodes_def demo_env_def demo_load_def)

lemma demo_labels:
  "\<exists>audios. load_audio_files demo_env demo_log_mel ''data'' =
     Inr (audios, [''thunder'', ''rain''], [''thunder'', ''rain''])"
  "\<exists>audios. load_audio_files demo_env demo_log_mel ''sparse'' =
     Inr (audios, [''rain''], [''rain'', ''thunder''])"
  "\<exists>audios. load_audio_files demo_env demo_log_mel ''tidy'' =
     Inr (audios, [''hail'', ''wind''], [''hail'', ''wind''])"
  using load_audio_files_eq [OF demo_roots(1) demo_listings(1), of demo_log_mel]
    load_audio_files_eq [OF demo_roots(2) demo_listings(2), of demo_log_mel]
    load_audio_files_eq [OF demo_roots(3) demo_listings(3), of demo_log_mel]
  by (simp_all add: demo_class_dirs_all demo_class_files demo_decodes)

lemma demo_fit_transform:
  "fit_transform [''thunder'', ''rain''] = [1, 0]"
  "fit_transform [''rain''] = [0]"
  "fit_transform [''hail'', ''wind''] = [0, 1]"
  by (simp_all add: fit_transform_def np_unique_def)

text \<open>
  Claim C2 as stated fails on the root \<^verbatim>\<open>data\<close>, whose directories are listed as
  \<^verbatim>\<open>thunder\<close>, \<^verbatim>\<open>rain\<close>: the first sample, of class \<^verbatim>\<open>thunder\<close>, gets index 1,
  and \<^verbatim>\<open>thunder\<close> is at position 0 of \<^verbatim>\<open>class_labels\<close>.
\<close>

theorem C2_label_index_counterexample:
  "\<exists>audios labels class_labels.
     load_audio_files demo_env demo_log_mel ''data'' = Inr (audios, labels, class_labels)
     \<and> labels = [''thunder'', ''rain''] \<and> class_labels = [''thunder'', ''rain'']
     \<and> fit_transform labels ! 0 = 1 \<and> index_of class_labels (labels ! 0) = 0"
  using demo_labels(1) by (auto simp: demo_fit_transform)

theorem C2_label_index_witness:
  "\<exists>audios. load_audio_files demo_env demo_log_mel ''tidy'' =
      Inr (audios, [''hail'', ''wind''], [''hail'', ''wind''])
    \<and> sorted_wrt (<) [''hail'', ''wind'']
    \<and> np_unique [''hail'', ''wind''] = [''hail'', ''wind'']
    \<and> fit_transform [''hail'', ''wind''] = [0, 1]
    \<and> map (index_of [''hail'', ''wind'']) [''hail'', ''wind''] = [0, 1]"
proof -
  obtain audios where l: "load_audio_files demo_env demo_log_mel ''tidy'' =
      Inr (audios, [''hail'', ''wind''], [''hail'', ''wind''])"
    using demo_labels(3) by blast
  have "sorted_wrt (<) [''hail'', ''wind'']" by simp
  with C2_label_index [OF l] l show ?thesis
    by (auto simp: demo_fit_transform np_unique_def)
qed

text \<open>
  Claim C1 asks for target vectors as wide as the vocabulary, also when a class has no
  loaded sample. On the root \<^verbatim>\<open>sparse\<close>, whose class \<^verbatim>\<open>thunder\<close> has no file, the
  vocabulary has two entries and the classifier is built with two outputs, while the
  only target vector has width one: the encoder sees the labels of the samples, never
  \<^verbatim>\<open>class_labels\<close>.
\<close>

theorem C1_target_width_at_empty_class:
  "\<exists>audios labels class_labels.
     load_audio_files demo_env demo_log_mel ''sparse'' = Inr (audios, labels, class_labels)
     \<and> class_labels = [''rain'', ''thunder'']
     \<and> labels_categorical labels = Inr [[1]]
     \<and> build_model_num_classes class_labels = 2"
  using demo_labels(2)
  by (auto simp: labels_categorical_def demo_fit_transform to_categorical_def
        build_model_num_classes_def)

section \<open>Properties of the tensor preparation\<close>

lemma collect_map_Inr:
  assumes "\<forall>x \<in> set xs. f x = Inr (g x)"
  shows "collect (map f xs) = Inr (map g xs)"
  using assms by (induction xs) auto

lemma tf_image_resize_Inr:
  assumes "0 < shape0 spect" "0 < shape1 spect" "0 < h" "0 < w"
  shows "tf_image_resize interp (newaxis spect) (h, w) =
     Inr (map (\<lambda>i. map (\<lambda>j. [interp (newaxis spect) (h, w) i j 0]) [0..<w]) [0..<h])"
proof -
  obtain row rest where spect: "spect = row # rest"
    using assms(1) by (cases spect) (auto simp: shape0_def)
  then obtain v vs where row: "row = v # vs"
    using assms(2) by (cases row) (auto simp: shape1_def)
  show ?thesis
    using assms(3,4) by (simp add: tf_image_resize_def newaxis_def spect row)
qed

lemma audios_padded_Inr:
  assumes "audios \<noteq> []"
  shows "audios_padded audios =
     Inr (map (\<lambda>audio. np_pad2 audio (Max (set (map shape0 audios)) - shape0 audio)
                           (Max (set (map shape1 audios)) - shape1 audio)) audios)"
  using assms by (simp add: audios_padded_def py_max_def)

lemma np_pad2_shape:
  assumes "shape0 a \<le> H" "shape1 a \<le> W" "0 < H"
  shows "shape0 (np_pad2 a (H - shape0 a) (W - shape1 a)) = H"
    and "shape1 (np_pad2 a (H - shape0 a) (W - shape1 a)) = W"
proof -
  show "shape0 (np_pad2 a (H - shape0 a) (W - shape1 a)) = H"
    using assms(1) by (simp add: shape0_def np_pad2_def)
  show "shape1 (np_pad2 a (H - shape0 a) (W - shape1 a)) = W"
  proof (cases a)
    case Nil
    obtain k where "H = Suc k"
      using assms(3) by (cases H) auto
    with Nil show ?thesis
      by (simp add: np_pad2_def shape1_def shape0_def)
  next
    case (Cons row rest)
    then show ?thesis
      using assms(2) by (simp add: np_pad2_def shape1_def)
  qed
qed

lemma replicate3: "replicate 3 v = [v, v, v]"
  by (simp add: numeral_3_eq_3)

text \<open>
  Claim C5. For a batch in which some spectrogram has a row and a column, and a positive
  target size, padding and \<^verbatim>\<open>prepare_spectrograms\<close> succeed and give one tensor per
  input spectrogram; every tensor has \<open>target_height\<close> rows of \<open>target_width\<close> pixels of
  three channels, and the three channels of a pixel hold the same value.
\<close>

theorem C5_prepared_tensors:
  assumes some: "\<exists>a \<in> set audios. 0 < shape1 a"
    and size: "0 < target_height" "0 < target_width"
  shows "\<exists>padded tensors.
           audios_padded audios = Inr padded
         \<and> prepare_spectrograms interp padded (target_height, target_width) = Inr tensors
         \<and> length tensors = length audios
         \<and> (\<forall>t \<in> set tensors.
               length t = target_height
             \<and> (\<forall>row \<in> set t.
                   length row = target_width
                 \<and> (\<forall>px \<in> set row. length px = 3 \<and> (\<exists>v. px = [v, v, v]))))"
proof -
  define H where "H = Max (set (map shape0 audios))"
  define W where "W = Max (set (map shape1 audios))"
  let ?padded = "map (\<lambda>audio. np_pad2 audio (H - shape0 audio) (W - shape1 audio)) audios"
  let ?size = "(target_height, target_width)"
  let ?resized = "\<lambda>spect. map (\<lambda>i. map (\<lambda>j. [interp (newaxis spect) ?size i j 0]) [0..<target_width])
                               [0..<target_height]"
  obtain a where a: "a \<in> set audios" "0 < shape1 a"
    using some by blast
  then have a0: "0 < shape0 a"
    by (cases a) (auto simp: shape1_def shape0_def)
  have nonempty: "audios \<noteq> []"
    using a(1) by auto
  have bound: "shape0 b \<le> H \<and> shape1 b \<le> W" if "b \<in> set audios" for b
    using that unfolding H_def W_def by (auto intro!: Max_ge)
  have H: "0 < H" and W: "0 < W"
    using bound [OF a(1)] a0 a(2) by linarith+
  have padded: "audios_padded audios = Inr ?padded"
    using nonempty unfolding H_def W_def by (rule audios_padded_Inr)
  have shapes: "shape0 p = H \<and> shape1 p = W" if p: "p \<in> set ?padded" for p
  proof -
    obtain b where b: "b \<in> set audios" "p = np_pad2 b (H - shape0 b) (W - shape1 b)"
      using p by auto
    then show ?thesis
      using np_pad2_shape [OF _ _ H, of b W] bound [OF b(1)] by simp
  qed
  have resize: "tf_image_resize interp (newaxis p) ?size = Inr (?resized p)" if "p \<in> set ?padded" for p
    using shapes [OF that] H W size by (intro tf_image_resize_Inr) simp_all
  have collected:
    "collect (map (\<lambda>spect. tf_image_resize interp (newaxis spect) ?size) ?padded) =
       Inr (map ?resized ?padded)"
    using resize by (intro collect_map_Inr) blast
  let ?tensors = "np_repeat_axis3 3 (map ?resized ?padded)"
  have prepared: "prepare_spectrograms interp ?padded ?size = Inr ?tensors"
    using collected nonempty by (simp add: prepare_spectrograms_def)
  have len: "length ?tensors = length audios"
    by (simp add: np_repeat_axis3_def)
  have shape: "length t = target_height
             \<and> (\<forall>row \<in> set t.
                   length row = target_width
                 \<and> (\<forall>px \<in> set row. length px = 3 \<and> (\<exists>v. px = [v, v, v])))"
    if "t \<in> set ?tensors" for t
    using that by (auto simp: np_repeat_axis3_def replicate3)
  show ?thesis
    using padded prepared len shape by blast
qed

lemma demo_padded:
  "audios_padded [[[1, 2]], [[3], [4 :: real]]] = Inr [[[1, 2], [0, 0]], [[3, 0], [4, 0]]]"
  by (simp add: audios_padded_def py_max_def np_pad2_def shape0_def shape1_def)

lemma demo_prepared:
  "prepare_spectrograms demo_interp [[[1, 2], [0, 0]], [[3, 0], [4, 0]]] (1, 2) =
     Inr [[[[1, 1, 1], [1, 1, 1]]], [[[3, 3, 3], [3, 3, 3]]]]"
  by (simp add: prepare_spectrograms_def tf_image_resize_def newaxis_def np_repeat_axis3_def
        demo_interp_def replicate3 upt_conv_Cons)

text \<open>
  The empty batch is refused, at the padding by \<^verbatim>\<open>max\<close> and in
  \<^verbatim>\<open>prepare_spectrograms\<close> by \<^verbatim>\<open>np.repeat\<close>. In the script the encoding of the labels
  comes first and has raised by then.
\<close>

lemma empty_batch_raises:
  "audios_padded ([] :: 'a::zero list list list) = Inl ValueError"
  "prepare_spectrograms interp [] target_size = Inl AxisError"
  by (simp_all add: audios_padded_def py_max_def prepare_spectrograms_def)

theorem C5_prepared_tensors_witness:
  "(\<exists>a \<in> set [[[1, 2]], [[3], [4 :: real]]]. 0 < shape1 a) \<and> (0::nat) < 1 \<and> (0::nat) < 2
   \<and> audios_padded [[[1, 2]], [[3], [4 :: real]]] = Inr [[[1, 2], [0, 0]], [[3, 0], [4, 0]]]
   \<and> prepare_spectrograms demo_interp [[[1, 2], [0, 0]], [[3, 0], [4, 0]]] (1, 2) =
         Inr [[[[1, 1, 1], [1, 1, 1]]], [[[3, 3, 3], [3, 3, 3]]]]"
proof -
  have some: "\<exists>a \<in> set [[[1, 2]], [[3], [4 :: real]]]. 0 < shape1 a"
    by (simp add: shape1_def)
  from C5_prepared_tensors [OF some, of 1 2 demo_interp]
  show ?thesis
    using some demo_padded demo_prepared by simp
qed

section \<open>Properties of the split\<close>

lemma n_test_fifth: "nat \<lceil>0.2 * real n\<rceil> = (n + 4) div 5"
  by linarith

lemma validate_fifth:
  "validate_shuffle_split n 0.2 =
     (if n < 2 then Inl ValueError else Inr (n - (n + 4) div 5, (n + 4) div 5))"
proof -
  have a: "\<not> ((0.2::real) \<le> 0 \<or> (0.2::real) \<ge> 1)" by simp
  have c: "n - (n + 4) div 5 = 0 \<longleftrightarrow> n < 2" by linarith
  show ?thesis
    unfolding validate_shuffle_split_def Let_def n_test_fifth if_not_P [OF a]
    using c by simp
qed

text \<open>
  Claim C6, as amended. For \<open>n\<close> tensors and targets, \<open>n\<close> at least two, and a permutation
  of the indices below \<open>n\<close>, the split succeeds; its training and evaluation indices are
  disjoint and together are every index once; the evaluation set has
  \<open>\<lceil>0.2 * n\<rceil>\<close> members, the ceiling and not the nearest integer, and the training set
  the others. For \<open>n = 10\<close> the evaluation set has two members.
\<close>

theorem C6_split_partition:
  assumes perm: "distinct (permutation n) \<and> set (permutation n) = {0..<n}"
    and n: "2 \<le> n"
    and X: "length X = n" and y: "length y = n"
  shows "\<exists>train test.
           shuffle_split permutation n 0.2 = Inr (train, test)
         \<and> train_test_split permutation X y 0.2 =
             Inr (safe_indexing X train, safe_indexing X test,
                  safe_indexing y train, safe_indexing y test)
         \<and> set train \<inter> set test = {}
         \<and> set train \<union> set test = {0..<n}
         \<and> distinct (train @ test)
         \<and> length test = nat \<lceil>0.2 * real n\<rceil>
         \<and> length train = n - nat \<lceil>0.2 * real n\<rceil>
         \<and> (n = 10 \<longrightarrow> length test = 2)"
proof -
  define k where "k = (n + 4) div 5"
  define p where "p = permutation n"
  have k: "k \<le> n" "nat \<lceil>0.2 * real n\<rceil> = k"
    unfolding k_def using n_test_fifth [of n] by linarith+
  have lp: "length p = n"
    using perm distinct_card [of p] unfolding p_def by simp
  let ?test = "take k p" and ?train = "take (n - k) (drop k p)"
  have train: "?train = drop k p"
    using lp by simp
  have split: "shuffle_split permutation n 0.2 = Inr (?train, ?test)"
    unfolding shuffle_split_def validate_fifth using n by (simp add: k_def p_def Let_def)
  have tts: "train_test_split permutation X y 0.2 =
             Inr (safe_indexing X ?train, safe_indexing X ?test,
                  safe_indexing y ?train, safe_indexing y ?test)"
    unfolding train_test_split_def X y split by simp
  have whole: "?test @ ?train = p"
    unfolding train by simp
  have d: "distinct (?test @ ?train)"
    unfolding whole using perm p_def by simp
  then have d': "distinct (?train @ ?test)" and disj: "set ?train \<inter> set ?test = {}"
    by auto
  have "set ?test \<union> set ?train = set p"
    using whole by (metis set_append)
  then have cover: "set ?train \<union> set ?test = {0..<n}"
    using perm p_def by auto
  have lens: "length ?test = k" "length ?train = n - k"
    using lp k(1) by simp_all
  have ten: "n = 10 \<longrightarrow> length ?test = 2"
    using lens(1) by (simp add: k_def)
  show ?thesis
    using split tts disj cover d' lens ten k(2) by (intro exI [of _ ?train] exI [of _ ?test]) simp
qed

lemma demo_permutation_ok: "distinct (demo_permutation n) \<and> set (demo_permutation n) = {0..<n}"
  by (simp add: demo_permutation_def)

lemma demo_split_10:
  "shuffle_split demo_permutation 10 0.2 = Inr ([7, 6, 5, 4, 3, 2, 1, 0], [9, 8])"
  unfolding shuffle_split_def validate_fifth
  by (simp add: demo_permutation_def Let_def upt_conv_Cons)

lemma demo_split_11:
  "shuffle_split demo_permutation 11 0.2 = Inr ([7, 6, 5, 4, 3, 2, 1, 0], [10, 9, 8])"
  unfolding shuffle_split_def validate_fifth
  by (simp add: demo_permutation_def Let_def upt_conv_Cons)

lemma demo_split_1: "shuffle_split demo_permutation 1 0.2 = Inl ValueError"
  unfolding shuffle_split_def validate_fifth by simp

text \<open>
  Claim C6 as stated fails for eleven samples: three of them go to the evaluation set,
  and \<open>11 * 0.2\<close> rounds to two. A single sample cannot be split at all.
\<close>

theorem C6_split_partition_counterexample:
  "shuffle_split demo_permutation 11 0.2 = Inr ([7, 6, 5, 4, 3, 2, 1, 0], [10, 9, 8])
   \<and> length [10, 9, 8 :: nat] = 3
   \<and> round (real 11 * 0.2) = (2 :: int)
   \<and> shuffle_split demo_permutation 1 0.2 = Inl ValueError"
  using demo_split_11 demo_split_1 by (simp add: round_def)

theorem C6_split_partition_witness:
  "distinct (demo_permutation 10) \<and> set (demo_permutation 10) = {0..<10}
   \<and> (2::nat) \<le> 10
   \<and> shuffle_split demo_permutation 10 0.2 = Inr ([7, 6, 5, 4, 3, 2, 1, 0], [9, 8])
   \<and> length [9, 8 :: nat] = 2"
  using C6_split_partition [where permutation = demo_permutation and n = 10
      and X = "replicate 10 ()" and y = "replicate 10 ()"]
    demo_permutation_ok [of 10] demo_split_10
  by simp

section \<open>Properties of the training loop\<close>

lemma no_improvement_snoc:
  "j < length h \<Longrightarrow> no_improvement (h @ [v]) j = no_improvement h j"
  by (simp add: no_improvement_def nth_append)

lemma no_improvement_last:
  "h \<noteq> [] \<Longrightarrow> no_improvement (h @ [v]) (length h) \<longleftrightarrow> Min (set h) \<le> v"
  by (simp add: no_improvement_def)

lemma patience_exhausted_snoc:
  "e < length h \<Longrightarrow> patience_exhausted (h @ [v]) e = patience_exhausted h e"
  unfolding patience_exhausted_def using no_improvement_snoc [of _ h v]
  by (metis le_less_trans)

lemma patience_exhaustedD:
  "patience_exhausted h e \<Longrightarrow> e < j + 20 \<Longrightarrow> j \<le> e \<Longrightarrow> no_improvement h j"
  by (simp add: patience_exhausted_def)

lemma Min_snoc: "h \<noteq> [] \<Longrightarrow> Min (set (h @ [v])) = min v (Min (set h))"
  by simp

lemma ReduceLROnPlateau_fields:
  "weights (ReduceLROnPlateau_on_epoch_end c s) = weights s"
  "stop_training (ReduceLROnPlateau_on_epoch_end c s) = stop_training s"
  "history_val_loss (ReduceLROnPlateau_on_epoch_end c s) = history_val_loss s"
  "checkpoint_best (ReduceLROnPlateau_on_epoch_end c s) = checkpoint_best s"
  "checkpoint_file (ReduceLROnPlateau_on_epoch_end c s) = checkpoint_file s"
  "es_wait (ReduceLROnPlateau_on_epoch_end c s) = es_wait s"
  "es_best (ReduceLROnPlateau_on_epoch_end c s) = es_best s"
  "es_best_weights (ReduceLROnPlateau_on_epoch_end c s) = es_best_weights s"
  "es_stopped_epoch (ReduceLROnPlateau_on_epoch_end c s) = es_stopped_epoch s"
  by (simp_all add: ReduceLROnPlateau_on_epoch_end_def Let_def)

lemma ModelCheckpoint_fields:
  "weights (ModelCheckpoint_on_epoch_end c s) = weights s"
  "learning_rate (ModelCheckpoint_on_epoch_end c s) = learning_rate s"
  "stop_training (ModelCheckpoint_on_epoch_end c s) = stop_training s"
  "history_val_loss (ModelCheckpoint_on_epoch_end c s) = history_val_loss s"
  "es_wait (ModelCheckpoint_on_epoch_end c s) = es_wait s"
  "es_best (ModelCheckpoint_on_epoch_end c s) = es_best s"
  "es_best_weights (ModelCheckpoint_on_epoch_end c s) = es_best_weights s"
  "es_stopped_epoch (ModelCheckpoint_on_epoch_end c s) = es_stopped_epoch s"
  "checkpoint_best (ModelCheckpoint_on_epoch_end c s) =
     (if np_less c (checkpoint_best s) then Some c else checkpoint_best s)"
  "checkpoint_file (ModelCheckpoint_on_epoch_end c s) =
     (if np_less c (checkpoint_best s) then Some (weights s) else checkpoint_file s)"
  by (simp_all add: ModelCheckpoint_on_epoch_end_def)

lemma EarlyStopping_fields:
  "history_val_loss (EarlyStopping_on_epoch_end epoch c s) = history_val_loss s"
  "checkpoint_best (EarlyStopping_on_epoch_end epoch c s) = checkpoint_best s"
  "checkpoint_file (EarlyStopping_on_epoch_end epoch c s) = checkpoint_file s"
  "es_best (EarlyStopping_on_epoch_end epoch c s) = (if np_less c (es_best s) then Some c else es_best s)"
  "es_best_weights (EarlyStopping_on_epoch_end epoch c s) =
     (if np_less c (es_best s) \<or> es_best_weights s = None then Some (weights s) else es_best_weights s)"
  "es_wait (EarlyStopping_on_epoch_end epoch c s) = (if np_less c (es_best s) then 0 else es_wait s + 1)"
  "stop_training (EarlyStopping_on_epoch_end epoch c s) =
     (stop_training s \<or> (20 \<le> (if np_less c (es_best s) then 0 else es_wait s + 1) \<and> 0 < epoch))"
  "es_stopped_epoch (EarlyStopping_on_epoch_end epoch c s) =
     (if 20 \<le> (if np_less c (es_best s) then 0 else es_wait s + 1) \<and> 0 < epoch then epoch
      else es_stopped_epoch s)"
  "weights (EarlyStopping_on_epoch_end epoch c s) =
     (if 20 \<le> (if np_less c (es_best s) then 0 else es_wait s + 1) \<and> 0 < epoch
      then (case es_best_weights (EarlyStopping_on_epoch_end epoch c s) of None \<Rightarrow> weights s | Some w \<Rightarrow> w)
      else weights s)"
  by (auto simp: EarlyStopping_on_epoch_end_def Let_def)

lemma run_epoch_fields:
  fixes s :: "'w fit_state" and train_epoch :: "nat \<Rightarrow> real \<Rightarrow> 'w \<Rightarrow> 'w"
    and evaluate :: "'w \<Rightarrow> real" and epoch :: nat
  defines "w' \<equiv> train_epoch epoch (learning_rate s) (weights s)"
  defines "v \<equiv> evaluate w'"
  defines "s' \<equiv> run_epoch train_epoch evaluate epoch s"
  shows "history_val_loss s' = history_val_loss s @ [v]"
    and "checkpoint_best s' = (if np_less v (checkpoint_best s) then Some v else checkpoint_best s)"
    and "checkpoint_file s' = (if np_less v (checkpoint_best s) then Some w' else checkpoint_file s)"
    and "es_best s' = (if np_less v (es_best s) then Some v else es_best s)"
    and "es_best_weights s' =
           (if np_less v (es_best s) \<or> es_best_weights s = None then Some w' else es_best_weights s)"
    and "es_wait s' = (if np_less v (es_best s) then 0 else es_wait s + 1)"
    and "stop_training s' = (stop_training s \<or> (20 \<le> es_wait s' \<and> 0 < epoch))"
    and "es_stopped_epoch s' = (if 20 \<le> es_wait s' \<and> 0 < epoch then epoch else es_stopped_epoch s)"
    and "weights s' =
           (if 20 \<le> es_wait s' \<and> 0 < epoch
            then (case es_best_weights s' of None \<Rightarrow> w' | Some w \<Rightarrow> w) else w')"
  unfolding s'_def v_def w'_def run_epoch_def Let_def
  by (auto simp: EarlyStopping_fields ReduceLROnPlateau_fields ModelCheckpoint_fields
        split: option.splits)

lemma run_epoch_first:
  fixes s :: "'w fit_state"
  assumes r: "running evaluate s" and h: "history_val_loss s = []"
  shows "running evaluate (run_epoch train_epoch evaluate epoch s)"
proof -
  let ?s' = "run_epoch train_epoch evaluate epoch s"
  let ?w' = "train_epoch epoch (learning_rate s) (weights s)"
  have s: "\<not> stop_training s" "checkpoint_best s = None" "checkpoint_file s = None"
    "es_best s = None" "es_best_weights s = None" "es_wait s = 0"
    using r h by (simp_all add: running_def)
  have f: "history_val_loss ?s' = [evaluate ?w']" "checkpoint_best ?s' = Some (evaluate ?w')"
    "checkpoint_file ?s' = Some ?w'" "es_best ?s' = Some (evaluate ?w')"
    "es_best_weights ?s' = Some ?w'" "es_wait ?s' = 0" "\<not> stop_training ?s'"
    using s h by (simp_all add: run_epoch_fields np_less_def)
  show ?thesis
    using f by (auto simp: running_def Let_def no_improvement_def patience_exhausted_def)
qed

lemma run_epoch_later:
  fixes s :: "'w fit_state"
  assumes r: "running evaluate s" and h: "history_val_loss s \<noteq> []"
    and e: "epoch = length (history_val_loss s)"
  shows "if stop_training (run_epoch train_epoch evaluate epoch s)
         then early_stopped evaluate (run_epoch train_epoch evaluate epoch s)
         else running evaluate (run_epoch train_epoch evaluate epoch s)"
proof -
  let ?s' = "run_epoch train_epoch evaluate epoch s"
  define w' where "w' = train_epoch epoch (learning_rate s) (weights s)"
  define v where "v = evaluate w'"
  define hs where "hs = history_val_loss s"
  define n where "n = length hs"
  define b where "b = n - 1 - es_wait s"
  define m where "m = Min (set hs)"
  obtain w where s: "\<not> stop_training s" "checkpoint_best s = Some m" "es_best s = Some m"
    "checkpoint_file s = Some w" "es_best_weights s = Some w" "evaluate w = m"
    "es_wait s < 20" "es_wait s < n" "\<not> no_improvement hs b" "hs ! b = m"
    "\<forall>j. b < j \<and> j < n \<longrightarrow> no_improvement hs j" "\<forall>j < n. \<not> patience_exhausted hs j"
    using r h unfolding running_def Let_def hs_def n_def b_def m_def by auto
  have n: "0 < n" "epoch = n" "hs \<noteq> []"
    using h e by (simp_all add: n_def hs_def)
  have bn: "b < n" "b + es_wait s + 1 = n"
    using s(8) by (simp_all add: b_def)
  have hist: "history_val_loss ?s' = hs @ [v]"
    by (simp add: run_epoch_fields hs_def v_def w'_def)
  have old: "no_improvement (hs @ [v]) j = no_improvement hs j"
    "patience_exhausted (hs @ [v]) j = patience_exhausted hs j" if "j < n" for j
    using that by (simp_all add: n_def no_improvement_snoc patience_exhausted_snoc)
  have last: "no_improvement (hs @ [v]) n \<longleftrightarrow> m \<le> v"
    using n(3) by (simp add: n_def m_def no_improvement_last)
  have nth_new: "(hs @ [v]) ! n = v"
    by (simp add: n_def)
  have nth_old: "(hs @ [v]) ! b = m"
    using bn(1) s(10) by (simp add: nth_append n_def)
  show ?thesis
  proof (cases "v < m")
    case True
    have f: "checkpoint_best ?s' = Some v" "checkpoint_file ?s' = Some w'" "es_best ?s' = Some v"
      "es_best_weights ?s' = Some w'" "es_wait ?s' = 0" "\<not> stop_training ?s'"
      using True s by (simp_all add: run_epoch_fields np_less_def v_def w'_def)
    have "Min (set (hs @ [v])) = min v m"
      unfolding m_def by (rule Min_snoc [OF n(3)])
    then have min: "Min (set (hs @ [v])) = v"
      using True by (simp only: min_def) simp
    have "\<not> no_improvement (hs @ [v]) n"
      using last True by simp
    moreover have "\<forall>j < Suc n. \<not> patience_exhausted (hs @ [v]) j"
    proof (intro allI impI)
      fix j assume "j < Suc n"
      show "\<not> patience_exhausted (hs @ [v]) j"
      proof (cases "j < n")
        case True
        then show ?thesis using old(2) s(12) by simp
      next
        case False
        then have "j = n" using \<open>j < Suc n\<close> by simp
        then show ?thesis
          using \<open>\<not> no_improvement (hs @ [v]) n\<close> patience_exhaustedD [of "hs @ [v]" n n]
          by auto
      qed
    qed
    moreover have "\<forall>j. n < j \<and> j < Suc n \<longrightarrow> no_improvement (hs @ [v]) j"
      by auto
    ultimately have "running evaluate ?s'"
      using f hist min n(1) nth_new by (simp add: running_def Let_def n_def [symmetric] v_def)
    then show ?thesis using f(6) by simp
  next
    case False
    then have mv: "m \<le> v" by simp
    have f: "checkpoint_best ?s' = Some m" "checkpoint_file ?s' = Some w" "es_best ?s' = Some m"
      "es_best_weights ?s' = Some w" "es_wait ?s' = es_wait s + 1"
      using False s by (simp_all add: run_epoch_fields np_less_def v_def w'_def)
    have "Min (set (hs @ [v])) = min v m"
      unfolding m_def by (rule Min_snoc [OF n(3)])
    then have min: "Min (set (hs @ [v])) = m"
      using mv by (simp only: min_def) simp
    have after: "\<forall>j. b < j \<and> j < Suc n \<longrightarrow> no_improvement (hs @ [v]) j"
    proof (intro allI impI)
      fix j assume j: "b < j \<and> j < Suc n"
      show "no_improvement (hs @ [v]) j"
      proof (cases "j < n")
        case True
        then show ?thesis using old(1) s(11) j by simp
      next
        case False
        then have "j = n" using j by simp
        then show ?thesis using last mv by simp
      qed
    qed
    have nb: "\<not> no_improvement (hs @ [v]) b"
      using old(1) [OF bn(1)] s(9) by simp
    have before: "\<forall>j. j < n \<longrightarrow> \<not> patience_exhausted (hs @ [v]) j"
      using old(2) s(12) by simp
    show ?thesis
    proof (cases "20 \<le> es_wait s + 1")
      case True
      then have wait: "es_wait s = 19" using s(7) by simp
      have stop: "stop_training ?s'" "es_stopped_epoch ?s' = n" "weights ?s' = w"
        using True n f by (simp_all add: run_epoch_fields)
      have n20: "20 \<le> n" "b + 20 = n"
        using bn wait by simp_all
      have "patience_exhausted (hs @ [v]) n"
        unfolding patience_exhausted_def using after n20 by auto
      moreover have "n - 20 = b"
        using n20 by simp
      ultimately have "early_stopped evaluate ?s'"
        using stop f hist min before n20 nth_old s(6)
        by (simp add: early_stopped_def Let_def n_def [symmetric])
      then show ?thesis using stop(1) by simp
    next
      case False
      then have wait: "es_wait s + 1 < 20" by simp
      have nostop: "\<not> stop_training ?s'"
        using False s(1) f by (simp add: run_epoch_fields)
      have b': "Suc n - 1 - (es_wait s + 1) = b"
        using bn by simp
      have "\<not> patience_exhausted (hs @ [v]) n"
      proof
        assume "patience_exhausted (hs @ [v]) n"
        then have "no_improvement (hs @ [v]) b"
          using bn wait by (intro patience_exhaustedD [of "hs @ [v]" n b]) simp_all
        then show False using nb by simp
      qed
      then have "\<forall>j < Suc n. \<not> patience_exhausted (hs @ [v]) j"
        using before less_Suc_eq by auto
      then have "running evaluate ?s'"
        using nostop f hist min after nb nth_old wait bn s(6) b'
        by (simp add: running_def Let_def n_def [symmetric])
      then show ?thesis using nostop by simp
    qed
  qed
qed

lemma running_not_stopped: "running evaluate s \<Longrightarrow> \<not> stop_training s"
  by (simp add: running_def)

lemma run_epoch_outcome:
  fixes s :: "'w fit_state"
  assumes "running evaluate s" and "epoch = length (history_val_loss s)"
  shows "(if stop_training (run_epoch train_epoch evaluate epoch s)
          then early_stopped evaluate (run_epoch train_epoch evaluate epoch s)
          else running evaluate (run_epoch train_epoch evaluate epoch s))
       \<and> length (history_val_loss (run_epoch train_epoch evaluate epoch s)) = Suc epoch"
proof (cases "history_val_loss s = []")
  case True
  have r': "running evaluate (run_epoch train_epoch evaluate epoch s)"
    using assms(1) True by (rule run_epoch_first)
  then have "\<not> stop_training (run_epoch train_epoch evaluate epoch s)"
    by (rule running_not_stopped)
  moreover have "length (history_val_loss (run_epoch train_epoch evaluate epoch s)) = Suc epoch"
    using assms(2) by (simp add: run_epoch_fields(1))
  ultimately show ?thesis
    using r' by simp
next
  case False
  have "if stop_training (run_epoch train_epoch evaluate epoch s)
        then early_stopped evaluate (run_epoch train_epoch evaluate epoch s)
        else running evaluate (run_epoch train_epoch evaluate epoch s)"
    using assms(1) False assms(2) by (rule run_epoch_later)
  moreover have "length (history_val_loss (run_epoch train_epoch evaluate epoch s)) = Suc epoch"
    using assms(2) by (simp add: run_epoch_fields(1))
  ultimately show ?thesis
    by blast
qed

lemma fit_epochs_outcome:
  fixes s :: "'w fit_state"
  assumes "running evaluate s" and "epoch = length (history_val_loss s)"
  shows "early_stopped evaluate (fit_epochs train_epoch evaluate k epoch s)
       \<or> (running evaluate (fit_epochs train_epoch evaluate k epoch s)
          \<and> length (history_val_loss (fit_epochs train_epoch evaluate k epoch s)) = epoch + k)"
  using assms
proof (induction k arbitrary: s epoch)
  case 0
  then show ?case by simp
next
  case (Suc k)
  let ?s' = "run_epoch train_epoch evaluate epoch s"
  have step: "(if stop_training ?s' then early_stopped evaluate ?s' else running evaluate ?s')
            \<and> length (history_val_loss ?s') = Suc epoch"
    using Suc.prems by (rule run_epoch_outcome)
  show ?case
  proof (cases "stop_training ?s'")
    case True
    then show ?thesis using step by (simp add: Let_def)
  next
    case False
    then have "running evaluate ?s'" "Suc epoch = length (history_val_loss ?s')"
      using step by simp_all
    from Suc.IH [OF this] False show ?thesis by (simp add: Let_def)
  qed
qed

lemma fit_outcome:
  "early_stopped evaluate (fit train_epoch evaluate w0)
   \<or> (running evaluate (fit train_epoch evaluate w0)
      \<and> length (history_val_loss (fit train_epoch evaluate w0)) = 100)"
proof -
  let ?s0 = "\<lparr> weights = w0, learning_rate = 0.001, stop_training = False, history_val_loss = [],
         checkpoint_best = None, checkpoint_file = None,
         reduce_lr_best = None, reduce_lr_wait = 0,
         es_wait = 0, es_best = None, es_best_weights = None, es_stopped_epoch = 0 \<rparr>"
  have "running evaluate ?s0" "0 = length (history_val_loss ?s0)"
    by (simp_all add: running_def)
  from fit_epochs_outcome [OF this, of train_epoch 100] show ?thesis
    by (simp add: fit_def)
qed

text \<open>
  Claim C8. Let \<open>h\<close> be the evaluation losses of a run of \<^verbatim>\<open>fit\<close>, one per epoch. If
  none of the twenty epochs up to epoch \<open>e\<close> improves on the best loss seen before it,
  then the run is stopped early at epoch \<open>e\<close>, which is the last epoch of the history, and
  the classifier is left in the state that the checkpoint holds: the state of epoch
  \<open>e - 20\<close>, whose loss is the least of the run, and not the state after epoch \<open>e\<close>.
\<close>

theorem C8_early_stop_restores_best:
  fixes train_epoch :: "nat \<Rightarrow> real \<Rightarrow> 'w \<Rightarrow> 'w" and evaluate :: "'w \<Rightarrow> real" and w0 :: 'w
  defines "s \<equiv> fit train_epoch evaluate w0"
  defines "h \<equiv> history_val_loss (fit train_epoch evaluate w0)"
  assumes e: "e < length h" "20 \<le> e"
    and flat: "\<forall>j. e < j + 20 \<and> j \<le> e \<longrightarrow> Min (set (take j h)) \<le> h ! j"
  shows "stop_training s \<and> es_stopped_epoch s = e \<and> length h = Suc e
       \<and> Some (weights s) = checkpoint_file s
       \<and> evaluate (weights s) = Min (set h)
       \<and> h ! (e - 20) = Min (set h)"
proof -
  have pe: "patience_exhausted h e"
    using e(2) flat by (auto simp: patience_exhausted_def no_improvement_def)
  have "\<not> (running evaluate s \<and> length h = 100)"
    using pe e(1) by (auto simp: running_def Let_def s_def h_def)
  then have stopped: "early_stopped evaluate s"
    using fit_outcome [of evaluate train_epoch w0] by (auto simp: s_def h_def)
  then have "\<not> e + 1 < length h"
    using pe unfolding early_stopped_def Let_def s_def h_def by blast
  then have len: "length h = Suc e"
    using e(1) by simp
  then have "length h - 1 = e" "length h - 21 = e - 20"
    by simp_all
  then show ?thesis
    using stopped len unfolding early_stopped_def Let_def s_def h_def by metis
qed

lemma demo_fit:
  "history_val_loss (fit demo_train_epoch demo_evaluate 0) = 0.9 # replicate 21 0.85"
  "stop_training (fit demo_train_epoch demo_evaluate 0)"
  "es_stopped_epoch (fit demo_train_epoch demo_evaluate 0) = 21"
  "weights (fit demo_train_epoch demo_evaluate 0) = 2"
  "checkpoint_file (fit demo_train_epoch demo_evaluate 0) = Some 2"
  by code_simp+

theorem C8_early_stop_restores_best_witness:
  "history_val_loss (fit demo_train_epoch demo_evaluate 0) = 0.9 # replicate 21 0.85
   \<and> stop_training (fit demo_train_epoch demo_evaluate 0)
   \<and> es_stopped_epoch (fit demo_train_epoch demo_evaluate 0) = 21
   \<and> weights (fit demo_train_epoch demo_evaluate 0) = 2
   \<and> checkpoint_file (fit demo_train_epoch demo_evaluate 0) = Some 2
   \<and> demo_evaluate 2 = 0.85"
proof -
  let ?h = "history_val_loss (fit demo_train_epoch demo_evaluate 0)"
  have h: "?h = 0.9 # replicate 21 0.85"
    by (rule demo_fit)
  have len: "21 < length ?h"
    unfolding h by simp
  have flat: "\<forall>j. 21 < j + 20 \<and> j \<le> 21 \<longrightarrow> Min (set (take j ?h)) \<le> ?h ! j"
  proof (intro allI impI)
    fix j :: nat assume j: "21 < j + 20 \<and> j \<le> 21"
    then obtain i where i: "j = Suc (Suc i)" "i < 20"
      by (cases j; cases "j - 1") auto
    have "?h ! j = 0.85"
      unfolding h i using i(2) by simp
    moreover have "(0.85::real) \<in> set (take j ?h)"
      unfolding h i by simp
    ultimately show "Min (set (take j ?h)) \<le> ?h ! j"
      by (metis Min_le List.finite_set)
  qed
  from C8_early_stop_restores_best [OF len _ flat]
  show ?thesis
    using demo_fit by (simp add: demo_evaluate_def)
qed

end
